theory Spec2Isabelle
  imports Main "HOL-Library.Sublist" "HOL-Library.Char_ord" "HOL-Library.List_Lexorder"
    "HOL-Library.Option_ord" "HOL-Library.Multiset"
begin

section \<open>Python strings\<close>

text \<open>
  A Python \<open>str\<close> is a sequence of Unicode code points. The model takes the strings whose
  code points lie below 256 (ASCII and Latin-1, which covers every keyword of the program,
  the a-acute U+00E1 of the ninth MMA keyword included): such a string is the list of its
  code points, one \<^typ>\<open>char\<close> each, so \<^const>\<open>length\<close> is Python's \<open>len\<close>.
  On these code points \<open>str.lower()\<close> works character by character: it adds 32 to
  \<open>A\<close>..\<open>Z\<close> and to U+00C0..U+00DE except the multiplication sign U+00D7, and keeps
  every other code point.
\<close>

definition lower_char :: "char \<Rightarrow> char" where
  "lower_char c = (let n = (of_char c :: nat) in
     if (65 \<le> n \<and> n \<le> 90) \<or> (192 \<le> n \<and> n \<le> 222 \<and> n \<noteq> 215)
     then char_of (n + 32) else c)"

definition lower :: "string \<Rightarrow> string" where
  "lower s = map lower_char s"

text \<open>\<open>k in s\<close> for two strings: \<open>k\<close> occurs in \<open>s\<close> as a contiguous substring.\<close>

fun contains :: "string \<Rightarrow> string \<Rightarrow> bool" where
  "contains k [] = (k = [])"
| "contains k (c # cs) = (prefix k (c # cs) \<or> contains k cs)"

text \<open>\<open>any(k in s for k in ks)\<close>.\<close>

definition any_in :: "string list \<Rightarrow> string \<Rightarrow> bool" where
  "any_in ks s = list_ex (\<lambda>k. contains k s) ks"

text \<open>\<open>s.count("/")\<close>: the occurrences of a one-character string cannot overlap.\<close>

definition count_char :: "char \<Rightarrow> string \<Rightarrow> nat" where
  "count_char c s = length (filter (\<lambda>d. d = c) s)"

section \<open>The article store (pipeline/storage.py)\<close>

text \<open>The dataclass \<open>ArticleRow\<close>, with the types its fields are annotated with.\<close>

record ArticleRow =
  url :: string
  final_url :: string
  title :: string
  source :: string
  published :: string
  domain :: string
  fetched_at :: string
  extracted_chars :: int
  content_hash :: string
  text' :: string

text \<open>
  A row of the table \<open>articles\<close> as \<open>sqlite3.Row\<close> returns it. The schema declares no
  column \<open>NOT NULL\<close>, so every column but the key may hold \<open>NULL\<close> (Python's \<open>None\<close>);
  \<open>upsert_article\<close> reads two of them through \<open>or ""\<close> and \<open>or 0\<close> for that reason.
  The table is the list of its rows in rowid order, each with its primary key \<open>url\<close>.
\<close>

record Row =
  row_final_url :: "string option"
  row_title :: "string option"
  row_source :: "string option"
  row_published :: "string option"
  row_domain :: "string option"
  row_fetched_at :: "string option"
  row_extracted_chars :: "int option"
  row_content_hash :: "string option"
  row_text :: "string option"

record RunSummary =
  started_at :: string
  finished_at :: string
  run_total_candidates :: int
  run_stored_new :: int
  run_stored_updated :: int
  run_skipped_existing :: int
  run_extract_ok :: int

record SQLiteStore =
  articles :: "(string \<times> Row) list"
  runs :: "(string \<times> RunSummary) list"

text \<open>\<open>_init_db\<close> on a fresh database file: both tables exist and are empty.\<close>

definition init_db :: SQLiteStore where
  "init_db = \<lparr>articles = [], runs = []\<rparr>"

text \<open>\<open>SELECT 1 FROM articles WHERE url = ? LIMIT 1\<close>, then \<open>row is not None\<close>.\<close>

definition has_url :: "SQLiteStore \<Rightarrow> string \<Rightarrow> bool" where
  "has_url st u = (map_of (articles st) u \<noteq> None)"

text \<open>\<open>SELECT * FROM articles WHERE url = ?\<close>, then \<open>fetchone()\<close>.\<close>

definition get_by_url :: "SQLiteStore \<Rightarrow> string \<Rightarrow> Row option" where
  "get_by_url st u = map_of (articles st) u"

text \<open>\<open>v or ""\<close> and \<open>v or 0\<close> on a value that is a string (an integer) or \<open>None\<close>.\<close>

definition or_empty :: "string option \<Rightarrow> string" where
  "or_empty v = (case v of None \<Rightarrow> [] | Some s \<Rightarrow> s)"

definition or_zero :: "int option \<Rightarrow> int" where
  "or_zero v = (case v of None \<Rightarrow> 0 | Some n \<Rightarrow> n)"

text \<open>The nine values \<open>INSERT\<close> and \<open>UPDATE\<close> bind to the columns besides the key.\<close>

definition to_row :: "ArticleRow \<Rightarrow> Row" where
  "to_row a = \<lparr>row_final_url = Some (final_url a), row_title = Some (title a),
     row_source = Some (source a), row_published = Some (published a),
     row_domain = Some (domain a), row_fetched_at = Some (fetched_at a),
     row_extracted_chars = Some (extracted_chars a),
     row_content_hash = Some (content_hash a), row_text = Some (text' a)\<rparr>"

text \<open>
  \<open>upsert_article\<close> returns its verdict and the store it leaves. \<open>INSERT\<close> appends a row;
  \<open>UPDATE ... WHERE url = ?\<close> rewrites in place every row with that key.
\<close>

definition upsert_article :: "SQLiteStore \<Rightarrow> ArticleRow \<Rightarrow> string \<times> SQLiteStore" where
  "upsert_article st a =
     (case get_by_url st (url a) of
        None \<Rightarrow> (''new'', st\<lparr>articles := articles st @ [(url a, to_row a)]\<rparr>)
      | Some existing \<Rightarrow>
          if or_empty (row_content_hash existing) = or_empty (Some (content_hash a))
             \<and> or_zero (row_extracted_chars existing) = extracted_chars a
          then (''unchanged'', st)
          else (''updated'',
                st\<lparr>articles := map (\<lambda>(u, r). if u = url a then (u, to_row a) else (u, r))
                                   (articles st)\<rparr>))"

text \<open>
  \<open>INSERT OR REPLACE INTO runs\<close>: a row with the same \<open>run_id\<close> is deleted, the new one
  is appended.
\<close>

definition record_run :: "SQLiteStore \<Rightarrow> string \<Rightarrow> RunSummary \<Rightarrow> SQLiteStore" where
  "record_run st run_id summary =
     st\<lparr>runs := filter (\<lambda>(k, r). k \<noteq> run_id) (runs st) @ [(run_id, summary)]\<rparr>"

text \<open>
  \<open>SELECT * FROM articles ORDER BY fetched_at DESC LIMIT ?\<close>. SQLite compares text
  bytewise and puts \<open>NULL\<close> below every value, which is the order of
  \<^typ>\<open>string option\<close>; it reads a negative \<open>LIMIT\<close> as no limit. SQL leaves the order of
  rows with equal \<open>fetched_at\<close> open; the model lists them latest rowid first. The
  parameter \<open>days\<close> is received and, as in the source, never read.
\<close>

definition sql_limit :: "int \<Rightarrow> 'a list \<Rightarrow> 'a list" where
  "sql_limit n xs = (if n < 0 then xs else take (nat n) xs)"

definition order_by_fetched_at_desc :: "(string \<times> Row) list \<Rightarrow> (string \<times> Row) list" where
  "order_by_fetched_at_desc rows = rev (sort_key (\<lambda>ur. row_fetched_at (snd ur)) rows)"

definition list_recent :: "SQLiteStore \<Rightarrow> int \<Rightarrow> int \<Rightarrow> (string \<times> Row) list" where
  "list_recent st days limit = sql_limit limit (order_by_fetched_at_desc (articles st))"

section \<open>The topic filter (pipeline/run.py and funcoina.py) and the classifier (pipeline/sitegen.py)\<close>

text \<open>The three module constants of \<open>pipeline/run.py\<close>.\<close>

definition KEYWORDS_MMA :: "string list" where
  "KEYWORDS_MMA = [''ufc'', ''mma'', ''topuria'', ''makhachev'', ''pereira'', ''volkanovski'',
     ''fight night'', ''octagono'', ''oct'' @ [CHR 0xE1] @ ''gono'']"

definition KEYWORDS_BOX :: "string list" where
  "KEYWORDS_BOX = [''boxeo'', ''wbc'', ''wba'', ''ibf'', ''wbo'',
     ''peso pluma'', ''peso welter'', ''peso medio'',
     ''canelo'', ''inoue'', ''tyson'', ''crawford'', ''usyk'', ''fury'']"

definition STOPWORDS_URL :: "string list" where
  "STOPWORDS_URL = [''/futbol/'', ''/tenis/'', ''/baloncesto/'', ''/ciclismo/'',
     ''/juegos-olimpicos/'', ''/snooker/'', ''/motor/'', ''/formula-1/'', ''/motogp/'',
     ''/golf/'', ''/rugby/'', ''/calendario'', ''/resultados'', ''/medallero'', ''/equipo'',
     ''/deportes/'', ''/suscrib'', ''/registro'', ''/inicio'', ''/ver'', ''/para-ti'']"

text \<open>
  \<open>looks_like_combat_sports(title, url)\<close> of \<open>pipeline/run.py\<close>; \<open>t\<close> is the title and
  \<open>u\<close> the URL, \<open>s\<close> the f-string \<open>f"{title} {url}".lower()\<close>.
\<close>

definition looks_like_combat_sports :: "string \<Rightarrow> string \<Rightarrow> bool" where
  "looks_like_combat_sports t u =
     (let s = lower (t @ '' '' @ u) in
      if any_in STOPWORDS_URL s then False
      else any_in KEYWORDS_MMA s \<or> any_in KEYWORDS_BOX s)"

text \<open>The same three constants and the same function as \<open>funcoina.py\<close> writes them.\<close>

definition funcoina_KEYWORDS_MMA :: "string list" where
  "funcoina_KEYWORDS_MMA = [''ufc'', ''mma'', ''topuria'', ''makhachev'', ''pereira'',
     ''volkanovski'', ''fight night'', ''octagono'', ''oct'' @ [CHR 0xE1] @ ''gono'']"

definition funcoina_KEYWORDS_BOX :: "string list" where
  "funcoina_KEYWORDS_BOX = [''boxeo'', ''wbc'', ''wba'', ''ibf'', ''wbo'',
     ''peso pluma'', ''peso welter'', ''peso medio'',
     ''canelo'', ''inoue'', ''tyson'', ''crawford'', ''usyk'', ''fury'']"

definition funcoina_STOPWORDS_URL :: "string list" where
  "funcoina_STOPWORDS_URL = [''/futbol/'', ''/tenis/'', ''/baloncesto/'', ''/ciclismo/'',
     ''/juegos-olimpicos/'', ''/snooker/'', ''/motor/'', ''/formula-1/'', ''/motogp/'',
     ''/golf/'', ''/rugby/'', ''/calendario'', ''/resultados'', ''/medallero'', ''/equipo'',
     ''/deportes/'', ''/suscrib'', ''/registro'', ''/inicio'', ''/ver'', ''/para-ti'']"

definition funcoina_looks_like_combat_sports :: "string \<Rightarrow> string \<Rightarrow> bool" where
  "funcoina_looks_like_combat_sports t u =
     (let s = lower (t @ '' '' @ u) in
      if any_in funcoina_STOPWORDS_URL s then False
      else any_in funcoina_KEYWORDS_MMA s \<or> any_in funcoina_KEYWORDS_BOX s)"

text \<open>
  The two constants of \<open>pipeline/sitegen.py\<close>. Its \<open>KEYWORDS_BOX\<close> is not the list of
  \<open>pipeline/run.py\<close>: the line of the three weight classes is absent.
\<close>

definition sitegen_KEYWORDS_MMA :: "string list" where
  "sitegen_KEYWORDS_MMA = [''ufc'', ''mma'', ''topuria'', ''makhachev'', ''pereira'',
     ''volkanovski'', ''fight night'', ''octagono'', ''oct'' @ [CHR 0xE1] @ ''gono'']"

definition sitegen_KEYWORDS_BOX :: "string list" where
  "sitegen_KEYWORDS_BOX = [''boxeo'', ''wbc'', ''wba'', ''ibf'', ''wbo'',
     ''canelo'', ''inoue'', ''tyson'', ''crawford'', ''usyk'', ''fury'']"

text \<open>
  \<open>classify_sport(title, url, text)\<close>; \<open>s\<close> is \<open>f"{title} {url} {text}".lower()\<close>.
\<close>

definition classify_sport :: "string \<Rightarrow> string \<Rightarrow> string \<Rightarrow> string" where
  "classify_sport t u x =
     (let s = lower (t @ '' '' @ u @ '' '' @ x);
          mma = any_in sitegen_KEYWORDS_MMA s;
          box = any_in sitegen_KEYWORDS_BOX s
      in if mma \<and> \<not> box then ''MMA''
         else if box \<and> \<not> mma then ''Boxeo''
         else if mma \<and> box then ''Mixto''
         else ''Otro'')"

text \<open>
  The f-string joins its fields by single blanks, and one keyword, \<open>fight night\<close>, has a
  blank: it can match across the blank between a field \<open>x\<close> that ends in \<open>fight\<close> and the
  next field \<open>y\<close> that starts with \<open>night\<close>, in any letter case.
\<close>

definition spans_fields :: "string \<Rightarrow> string \<Rightarrow> bool" where
  "spans_fields x y = (suffix ''fight'' (lower x) \<and> prefix ''night'' (lower y))"

text \<open>
  Two auxiliary notions for the proofs about \<open>classify_sport\<close>: a keyword of \<open>ks\<close> occurs
  inside one of three fields, and the category the \<open>if\<close> chain gives to the two flags.
\<close>

definition in_fields :: "string list \<Rightarrow> string \<Rightarrow> string \<Rightarrow> string \<Rightarrow> bool" where
  "in_fields ks a b c = (any_in ks (lower a) \<or> any_in ks (lower b) \<or> any_in ks (lower c))"

definition category :: "bool \<Rightarrow> bool \<Rightarrow> string" where
  "category mma box = (if mma \<and> \<not> box then ''MMA'' else if box \<and> \<not> mma then ''Boxeo''
     else if mma \<and> box then ''Mixto'' else ''Otro'')"

section \<open>The world outside the program\<close>

text \<open>
  An exception object of class \<open>Exception\<close>, which is what \<open>except Exception\<close> catches,
  identified by its \<open>repr\<close>. Interrupts and \<open>SystemExit\<close>, which are not of that class,
  are not modelled.
\<close>

datatype exn = Exception string

text \<open>What \<open>urllib.parse.urlparse\<close> returns: the scheme, the network location, the path.\<close>

record ParseResult =
  scheme :: string
  netloc :: string
  path :: string

text \<open>A feed entry: each attribute is a string, or missing or \<open>None\<close>.\<close>

record Entry =
  entry_title :: "string option"
  entry_link :: "string option"
  entry_published :: "string option"

text \<open>
  The libraries and the network are parameters of the model, each free to return a result
  or to raise. A call that reads the network or the clock also takes the number of such
  calls the run has made before it, so that the same request can be answered differently
  at different times; the parsers and the digest are functions of their argument.
  \<^item> \<open>http_get\<close>: \<open>httpx.Client(...).get(url)\<close>, giving \<open>r.status_code\<close>, \<open>str(r.url)\<close> and
    \<open>r.text\<close>;
  \<^item> \<open>soup_select\<close>: \<open>BeautifulSoup(html, "html.parser").select("a[href]")\<close>, giving for
    every anchor \<open>a.get("href", "")\<close> and \<open>a.get_text(" ", strip=True)\<close>;
  \<^item> \<open>feedparser_parse\<close>: \<open>feedparser.parse(feed_url).entries\<close>;
  \<^item> \<open>trafilatura_extract\<close>: \<open>trafilatura.extract(html, ...)\<close>, a string or \<open>None\<close>;
  \<^item> \<open>sha256_hexdigest\<close>: \<open>hashlib.sha256(bytes).hexdigest()\<close>;
  \<^item> \<open>utcnow_isoformat\<close>: \<open>datetime.now(timezone.utc).replace(microsecond=0).isoformat()\<close>.
\<close>

record world =
  http_get :: "nat \<Rightarrow> string \<Rightarrow> exn + (int \<times> string \<times> string)"
  soup_select :: "string \<Rightarrow> exn + (string \<times> string) list"
  urlparse :: "string \<Rightarrow> exn + ParseResult"
  feedparser_parse :: "nat \<Rightarrow> string \<Rightarrow> exn + Entry list"
  trafilatura_extract :: "string \<Rightarrow> exn + string option"
  sha256_hexdigest :: "string \<Rightarrow> string"
  utcnow_isoformat :: "nat \<Rightarrow> string"

section \<open>More of Python's strings\<close>

text \<open>The code points below 256 for which \<open>str.isspace()\<close> holds.\<close>

definition isspace :: "char \<Rightarrow> bool" where
  "isspace c = (let n = (of_char c :: nat) in
     (9 \<le> n \<and> n \<le> 13) \<or> (28 \<le> n \<and> n \<le> 32) \<or> n = 133 \<or> n = 160)"

text \<open>\<open>s.strip()\<close>.\<close>

definition strip :: "string \<Rightarrow> string" where
  "strip s = rev (dropWhile isspace (rev (dropWhile isspace s)))"

text \<open>\<open>s.split()\<close>: the maximal runs of non-blank characters; \<open>cur\<close> is the run being read,
  latest character first.\<close>

fun split_from :: "string \<Rightarrow> string \<Rightarrow> string list" where
  "split_from cur [] = (if cur = [] then [] else [rev cur])"
| "split_from cur (c # cs) =
     (if isspace c then (if cur = [] then split_from [] cs else rev cur # split_from [] cs)
      else split_from (c # cur) cs)"

definition split_ws :: "string \<Rightarrow> string list" where
  "split_ws s = split_from [] s"

text \<open>\<open>" ".join(ws)\<close>.\<close>

fun join_blank :: "string list \<Rightarrow> string" where
  "join_blank [] = []"
| "join_blank [x] = x"
| "join_blank (x # y # zs) = x @ '' '' @ join_blank (y # zs)"

text \<open>\<open>s.encode("utf-8")\<close> on code points below 256: one byte below 128, two from there on.\<close>

definition utf8_encode :: "string \<Rightarrow> string" where
  "utf8_encode s = concat (map (\<lambda>c. let n = (of_char c :: nat) in
     if n < 128 then [c] else [char_of (192 + n div 64), char_of (128 + n mod 64)]) s)"

text \<open>\<open>xs[:n]\<close> for any integer \<open>n\<close>: a negative \<open>n\<close> counts from the end.\<close>

definition slice_to :: "int \<Rightarrow> 'a list \<Rightarrow> 'a list" where
  "slice_to n xs = (if 0 \<le> n then take (nat n) xs else take (nat (int (length xs) + n)) xs)"

section \<open>Discovery and the orchestrator (pipeline/run.py, pipeline/sources.py)\<close>

definition MIN_CHARS :: int where
  "MIN_CHARS = 900"

definition PREVIEW_CHARS :: int where
  "PREVIEW_CHARS = 900"

text \<open>\<open>sha\<close>; \<open>text or ""\<close> is \<open>text\<close> on a string.\<close>

definition sha :: "world \<Rightarrow> string \<Rightarrow> string" where
  "sha w txt = (let t = join_blank (split_ws (lower txt))
     in sha256_hexdigest w (utf8_encode (slice_to 5000 t)))"

text \<open>\<open>fetch\<close>, as the \<open>n\<close>-th call to the outside.\<close>

definition fetch :: "world \<Rightarrow> nat \<Rightarrow> string \<Rightarrow> exn + (int \<times> string \<times> string)" where
  "fetch w n u = http_get w n u"

definition extract_text :: "world \<Rightarrow> string \<Rightarrow> exn + string" where
  "extract_text w html =
     (case trafilatura_extract w html of Inl ex \<Rightarrow> Inl ex | Inr v \<Rightarrow> Inr (strip (or_empty v)))"

definition now_utc_iso :: "world \<Rightarrow> nat \<Rightarrow> string" where
  "now_utc_iso w n = utcnow_isoformat w n"

text \<open>A candidate: the dictionary with the keys \<open>title\<close>, \<open>url\<close> and \<open>published\<close>.\<close>

record Candidate =
  cand_title :: string
  cand_url :: string
  cand_published :: string

text \<open>\<open>get_urls_from_rss\<close>; \<open>getattr(e, "title", "") or ""\<close> is \<open>or_empty\<close>.\<close>

definition get_urls_from_rss :: "world \<Rightarrow> nat \<Rightarrow> string \<Rightarrow> int \<Rightarrow> exn + Candidate list" where
  "get_urls_from_rss w n feed_url limit =
     (case feedparser_parse w n feed_url of
        Inl ex \<Rightarrow> Inl ex
      | Inr entries \<Rightarrow>
          Inr (map (\<lambda>e. \<lparr>cand_title = or_empty (entry_title e), cand_url = or_empty (entry_link e),
                          cand_published = or_empty (entry_published e)\<rparr>)
                 (slice_to limit entries)))"

text \<open>The two tuples \<open>get_urls_from_html_list\<close> tests the lowercased href against.\<close>

definition ASSET_EXTENSIONS :: "string list" where
  "ASSET_EXTENSIONS = [''.jpg'', ''.png'', ''.svg'', ''.css'', ''.js'', ''.webp'', ''.mp4'',
     ''.woff'', ''.woff2'']"

definition NAVIGATION :: "string list" where
  "NAVIGATION = [''/inicio'', ''/ver'', ''/para-ti'', ''/suscrib'', ''/registro'',
     ''/deportes'', ''/resultados'', ''/calendario'', ''/medallero'', ''/equipo'']"

text \<open>
  The body of the first loop of \<open>get_urls_from_html_list\<close> for one anchor, given as its
  \<open>href\<close> and its text: the candidate it appends, \<open>None\<close> where it says \<open>continue\<close>, or
  the exception \<open>urlparse\<close> raised.
\<close>

definition anchor_candidate :: "world \<Rightarrow> string \<Rightarrow> string \<times> string \<Rightarrow> exn + Candidate option" where
  "anchor_candidate w furl a =
     (let href = fst a; txt = strip (snd a) in
      if href = [] \<or> length txt < 18 then Inr None
      else
        case (if prefix ''/'' href
              then (case urlparse w furl of
                      Inl ex \<Rightarrow> Inl ex
                    | Inr p \<Rightarrow> Inr (scheme p @ ''://'' @ netloc p @ href))
              else Inr href) of
          Inl ex \<Rightarrow> Inl ex
        | Inr href \<Rightarrow>
            if \<not> prefix ''http'' href then Inr None
            else let href_l = lower href in
              if list_ex (\<lambda>ext. suffix ext href_l) ASSET_EXTENSIONS then Inr None
              else if any_in NAVIGATION href_l then Inr None
              else if count_char CHR ''/'' href_l < 4 then Inr None
              else Inr (Some \<lparr>cand_title = txt, cand_url = href, cand_published = []\<rparr>))"

fun collect_candidates :: "world \<Rightarrow> string \<Rightarrow> (string \<times> string) list \<Rightarrow> exn + Candidate list" where
  "collect_candidates w furl [] = Inr []"
| "collect_candidates w furl (a # as) =
     (case anchor_candidate w furl a of
        Inl ex \<Rightarrow> Inl ex
      | Inr None \<Rightarrow> collect_candidates w furl as
      | Inr (Some c) \<Rightarrow>
          (case collect_candidates w furl as of
             Inl ex \<Rightarrow> Inl ex
           | Inr cs \<Rightarrow> Inr (c # cs)))"

text \<open>The second loop: \<open>seen\<close> and \<open>out\<close> as they stand, the candidates still to visit.\<close>

fun dedupe :: "Candidate list \<Rightarrow> string set \<Rightarrow> Candidate list \<Rightarrow> int \<Rightarrow> Candidate list" where
  "dedupe [] seen out limit = out"
| "dedupe (c # cs) seen out limit =
     (if cand_url c \<in> seen then dedupe cs seen out limit
      else if limit \<le> int (length (out @ [c])) then out @ [c]
      else dedupe cs (insert (cand_url c) seen) (out @ [c]) limit)"

definition get_urls_from_html_list :: "world \<Rightarrow> nat \<Rightarrow> string \<Rightarrow> int \<Rightarrow> exn + Candidate list" where
  "get_urls_from_html_list w n list_url limit =
     (case fetch w n list_url of
        Inl ex \<Rightarrow> Inl ex
      | Inr (status, furl, html) \<Rightarrow>
          (case soup_select w html of
             Inl ex \<Rightarrow> Inl ex
           | Inr anchors \<Rightarrow>
               (case collect_candidates w furl anchors of
                  Inl ex \<Rightarrow> Inl ex
                | Inr candidates \<Rightarrow> Inr (dedupe candidates {} [] limit))))"

text \<open>The source descriptors of \<open>pipeline/sources.py\<close>.\<close>

record Source =
  src_name :: string
  src_type :: string
  src_url :: string
  src_sport_hint :: string

definition SOURCES :: "Source list" where
  "SOURCES = [
     \<lparr>src_name = ''marca_portada'', src_type = ''rss'',
      src_url = ''https://e00-marca.uecdn.es/rss/portada.xml'', src_sport_hint = ''mixed''\<rparr>,
     \<lparr>src_name = ''dazn_news'', src_type = ''html_list'',
      src_url = ''https://www.dazn.com/es-ES/news'', src_sport_hint = ''mixed''\<rparr>,
     \<lparr>src_name = ''eurosport_mma'', src_type = ''html_list'',
      src_url = ''https://www.eurosport.es/mma/'', src_sport_hint = ''mma''\<rparr>,
     \<lparr>src_name = ''eurosport_ufc'', src_type = ''html_list'',
      src_url = ''https://www.eurosport.es/mma/ufc/'', src_sport_hint = ''mma''\<rparr>]"

text \<open>
  A row of \<open>rows_probe\<close>, the debug dictionary of one candidate, as it stands when it is
  appended. \<open>None\<close> is Python's \<open>None\<close> (JSON \<open>null\<close>) in \<open>http_status\<close>, \<open>final_url\<close>
  and \<open>domain\<close>; in \<open>error\<close> it says that the key is absent.
\<close>

record ProbeRow =
  probe_source :: string
  probe_source_type :: string
  probe_rss_or_list_url :: string
  probe_title :: string
  probe_url :: string
  probe_published :: string
  probe_http_status :: "int option"
  probe_final_url :: "string option"
  probe_domain :: "string option"
  probe_extracted_chars :: int
  probe_extract_ok :: bool
  probe_content_hash :: string
  probe_text_preview :: string
  probe_error :: "string option"

text \<open>
  The calls the claims speak of, in the order \<open>main\<close> makes them: \<open>store.has_url(url)\<close> with
  its answer, \<open>fetch(url)\<close> for a candidate (line 176), and the \<open>fetch\<close> of a listing page
  inside \<open>get_urls_from_html_list\<close>. The log is not a variable of the program; the model
  keeps it so that the order of the calls can be stated.
\<close>

datatype call = HasUrl string bool | FetchCandidate string | FetchListing string

text \<open>
  The variables of \<open>main\<close>: the store, the five counters and \<open>rows_probe\<close>; with them the
  number of calls to the outside made so far and the log of calls.
\<close>

record RunState =
  store :: SQLiteStore
  rows_probe :: "ProbeRow list"
  total_candidates :: int
  stored_new :: int
  stored_updated :: int
  skipped_existing :: int
  extract_ok :: int
  clock :: nat
  calls :: "call list"

text \<open>
  The three statements of the \<open>try\<close> block that can raise, in their order: \<open>fetch(url)\<close>,
  \<open>extract_text(html)\<close> and \<open>urlparse(final_url).netloc\<close>. The result is the exception
  that reaches \<open>except Exception as ex\<close>, or status, final URL, text and domain.
\<close>

definition fetch_and_extract ::
    "world \<Rightarrow> nat \<Rightarrow> string \<Rightarrow> exn + (int \<times> string \<times> string \<times> string)" where
  "fetch_and_extract w n u =
     (case fetch w n u of
        Inl ex \<Rightarrow> Inl ex
      | Inr (status, furl, html) \<Rightarrow>
          (case extract_text w html of
             Inl ex \<Rightarrow> Inl ex
           | Inr txt \<Rightarrow>
               (case urlparse w furl of
                  Inl ex \<Rightarrow> Inl ex
                | Inr p \<Rightarrow> Inr (status, furl, txt, netloc p))))"

text \<open>The dictionary \<open>row\<close> after \<open>row.update\<close> in the \<open>except\<close> branch.\<close>

definition error_row :: "Source \<Rightarrow> Candidate \<Rightarrow> exn \<Rightarrow> ProbeRow" where
  "error_row src it ex =
     \<lparr>probe_source = src_name src, probe_source_type = src_type src,
      probe_rss_or_list_url = src_url src, probe_title = cand_title it,
      probe_url = cand_url it, probe_published = cand_published it,
      probe_http_status = None, probe_final_url = None, probe_domain = None,
      probe_extracted_chars = 0, probe_extract_ok = False, probe_content_hash = [],
      probe_text_preview = [], probe_error = Some (case ex of Exception r \<Rightarrow> r)\<rparr>"

text \<open>The dictionary \<open>row\<close> after \<open>row.update\<close> in the \<open>try\<close> block.\<close>

definition fetched_row ::
    "world \<Rightarrow> Source \<Rightarrow> Candidate \<Rightarrow> int \<Rightarrow> string \<Rightarrow> string \<Rightarrow> string \<Rightarrow> ProbeRow" where
  "fetched_row w src it status furl dmn txt =
     \<lparr>probe_source = src_name src, probe_source_type = src_type src,
      probe_rss_or_list_url = src_url src, probe_title = cand_title it,
      probe_url = cand_url it, probe_published = cand_published it,
      probe_http_status = Some status, probe_final_url = Some furl, probe_domain = Some dmn,
      probe_extracted_chars = int (length txt),
      probe_extract_ok = (MIN_CHARS \<le> int (length txt)),
      probe_content_hash = (if txt \<noteq> [] then sha w txt else []),
      probe_text_preview = (if txt \<noteq> [] then slice_to PREVIEW_CHARS txt else []),
      probe_error = None\<rparr>"

text \<open>
  The body of the loop \<open>for it in items\<close>. Neither \<open>continue\<close> appends a row; the
  \<open>try\<close> statement ends in \<open>rows_probe.append(row)\<close> on both of its ways. The calls
  to SQLite and to \<open>sha\<close> are taken to return: the exceptions of the \<open>try\<close> block are
  those of \<open>fetch_and_extract\<close>.
\<close>

definition process_candidate :: "world \<Rightarrow> Source \<Rightarrow> Candidate \<Rightarrow> RunState \<Rightarrow> RunState" where
  "process_candidate w src it s0 =
     (let s = s0\<lparr>total_candidates := total_candidates s0 + 1\<rparr>;
          t = cand_title it;
          u = cand_url it
      in if \<not> looks_like_combat_sports t u then s
         else if has_url (store s) u
         then s\<lparr>skipped_existing := skipped_existing s + 1, calls := calls s @ [HasUrl u True]\<rparr>
         else
           let s1 = s\<lparr>clock := Suc (clock s),
                      calls := calls s @ [HasUrl u False, FetchCandidate u]\<rparr>
           in case fetch_and_extract w (clock s) u of
                Inl ex \<Rightarrow> s1\<lparr>rows_probe := rows_probe s1 @ [error_row src it ex]\<rparr>
              | Inr (status, furl, txt, dmn) \<Rightarrow>
                  let fetched = now_utc_iso w (clock s1);
                      s2 = s1\<lparr>clock := Suc (clock s1)\<rparr>;
                      row = fetched_row w src it status furl dmn txt
                  in if probe_extract_ok row
                     then
                       let art = \<lparr>url = u, final_url = furl, title = t, source = src_name src,
                                  published = probe_published row, domain = dmn,
                                  fetched_at = fetched, extracted_chars = int (length txt),
                                  content_hash = probe_content_hash row, text' = txt\<rparr>;
                           res = upsert_article (store s2) art;
                           s3 = s2\<lparr>extract_ok := extract_ok s2 + 1, store := snd res\<rparr>;
                           s4 = (if fst res = ''new'' then s3\<lparr>stored_new := stored_new s3 + 1\<rparr>
                                 else if fst res = ''updated''
                                 then s3\<lparr>stored_updated := stored_updated s3 + 1\<rparr>
                                 else s3)
                       in s4\<lparr>rows_probe := rows_probe s4 @ [row]\<rparr>
                     else s2\<lparr>rows_probe := rows_probe s2 @
                            [row\<lparr>probe_error := Some ''Low extracted chars (<900).''\<rparr>]\<rparr>)"

fun process_items :: "world \<Rightarrow> Source \<Rightarrow> Candidate list \<Rightarrow> RunState \<Rightarrow> RunState" where
  "process_items w src [] s = s"
| "process_items w src (it # items) s = process_items w src items (process_candidate w src it s)"

text \<open>
  The loop \<open>for src in SOURCES\<close>. Discovery is one call to the outside; an exception it
  raises is caught nowhere and ends the run, which the result reports with the state
  reached.
\<close>

fun process_sources :: "world \<Rightarrow> int \<Rightarrow> Source list \<Rightarrow> RunState \<Rightarrow> exn option \<times> RunState" where
  "process_sources w per_source_limit [] s = (None, s)"
| "process_sources w per_source_limit (src # srcs) s =
     (if src_type src = ''rss'' then
        (case get_urls_from_rss w (clock s) (src_url src) per_source_limit of
           Inl ex \<Rightarrow> (Some ex, s\<lparr>clock := Suc (clock s)\<rparr>)
         | Inr items \<Rightarrow>
             process_sources w per_source_limit srcs
               (process_items w src items (s\<lparr>clock := Suc (clock s)\<rparr>)))
      else if src_type src = ''html_list'' then
        (case get_urls_from_html_list w (clock s) (src_url src) (per_source_limit * 2) of
           Inl ex \<Rightarrow>
             (Some ex, s\<lparr>clock := Suc (clock s),
                         calls := calls s @ [FetchListing (src_url src)]\<rparr>)
         | Inr items \<Rightarrow>
             process_sources w per_source_limit srcs
               (process_items w src items
                  (s\<lparr>clock := Suc (clock s),
                     calls := calls s @ [FetchListing (src_url src)]\<rparr>)))
      else process_sources w per_source_limit srcs s)"

text \<open>
  \<open>main\<close> on the database it finds under \<open>db_path\<close>: the state from which the loops
  start, and the run up to \<open>store.record_run\<close>. What follows in the source writes files
  from \<open>rows_probe\<close> and from \<open>store.list_recent(days=14, limit=2000)\<close> and prints the
  counters; it changes no table.
\<close>

definition initial_state :: "SQLiteStore \<Rightarrow> RunState" where
  "initial_state db = \<lparr>store = db, rows_probe = [], total_candidates = 0, stored_new = 0,
     stored_updated = 0, skipped_existing = 0, extract_ok = 0, clock = 1, calls = []\<rparr>"

definition main :: "world \<Rightarrow> int \<Rightarrow> SQLiteStore \<Rightarrow> exn option \<times> RunState" where
  "main w per_source_limit db =
     (let run_id = now_utc_iso w 0
      in case process_sources w per_source_limit SOURCES (initial_state db) of
           (Some ex, s) \<Rightarrow> (Some ex, s)
         | (None, s) \<Rightarrow>
             let finished = now_utc_iso w (clock s);
                 summary = \<lparr>started_at = run_id, finished_at = finished,
                            run_total_candidates = total_candidates s,
                            run_stored_new = stored_new s,
                            run_stored_updated = stored_updated s,
                            run_skipped_existing = skipped_existing s,
                            run_extract_ok = extract_ok s\<rparr>
             in (None, s\<lparr>store := record_run (store s) run_id summary,
                          clock := Suc (clock s)\<rparr>))"

text \<open>
  The pipeline run once for each element of a list, from a given database: every run has
  its own world and its own \<open>per_source_limit\<close>, and leaves its database to the next.
\<close>

fun pipeline_runs :: "(world \<times> int) list \<Rightarrow> SQLiteStore \<Rightarrow> SQLiteStore" where
  "pipeline_runs [] db = db"
| "pipeline_runs ((w, per_source_limit) # rs) db =
     pipeline_runs rs (store (snd (main w per_source_limit db)))"

section \<open>What holds of every run\<close>

text \<open>
  Of a log of calls: every \<open>fetch\<close> for a candidate comes right after the \<open>has_url\<close> of
  the same URL answered \<open>False\<close>, and \<open>has_url\<close> has not answered \<open>True\<close> for that URL
  before. Of a run state: its log is such a log, and every URL for which \<open>has_url\<close> has
  answered \<open>True\<close> has its row.
\<close>

definition fetch_ok :: "call list \<Rightarrow> bool" where
  "fetch_ok cs = (\<forall>i v. i < length cs \<and> cs ! i = FetchCandidate v \<longrightarrow>
     0 < i \<and> cs ! (i - 1) = HasUrl v False \<and> (\<forall>j<i. cs ! j \<noteq> HasUrl v True))"

definition calls_inv :: "RunState \<Rightarrow> bool" where
  "calls_inv s = (fetch_ok (calls s)
     \<and> (\<forall>v. HasUrl v True \<in> set (calls s) \<longrightarrow> has_url (store s) v))"

text \<open>
  Of a stored row: \<open>extracted_chars\<close> is a number of at least \<open>MIN_CHARS\<close> and
  \<open>content_hash\<close> a string that is not empty. Of a store: every row of \<open>articles\<close> is so.
\<close>

definition row_meets_threshold :: "Row \<Rightarrow> bool" where
  "row_meets_threshold r =
     ((case row_extracted_chars r of None \<Rightarrow> False | Some n \<Rightarrow> MIN_CHARS \<le> n)
      \<and> (case row_content_hash r of None \<Rightarrow> False | Some h \<Rightarrow> h \<noteq> []))"

definition meets_threshold :: "SQLiteStore \<Rightarrow> bool" where
  "meets_threshold st = list_all (\<lambda>ur. row_meets_threshold (snd ur)) (articles st)"

section \<open>Example data\<close>

definition ex_row :: "string option \<Rightarrow> int option \<Rightarrow> string \<Rightarrow> Row" where
  "ex_row h n t = \<lparr>row_final_url = Some ''https://example.com/a'', row_title = Some ''UFC 300'',
     row_source = Some ''marca_portada'', row_published = Some [], row_domain = Some ''example.com'',
     row_fetched_at = Some t, row_extracted_chars = n, row_content_hash = h,
     row_text = Some ''body''\<rparr>"

definition ex_article :: "string \<Rightarrow> string \<Rightarrow> int \<Rightarrow> ArticleRow" where
  "ex_article t h n = \<lparr>url = ''https://example.com/a'', final_url = ''https://example.com/a'',
     title = t, source = ''marca_portada'', published = [], domain = ''example.com'',
     fetched_at = ''2024-05-01T10:00:00+00:00'', extracted_chars = n, content_hash = h,
     text' = ''body''\<rparr>"

definition ex_store :: "string option \<Rightarrow> int option \<Rightarrow> SQLiteStore" where
  "ex_store h n = \<lparr>articles = [(''https://example.com/a'', ex_row h n ''2024-04-30T09:00:00+00:00'')],
     runs = []\<rparr>"

definition ex_three :: SQLiteStore where
  "ex_three = \<lparr>articles = [(''a'', ex_row None None ''2024-01-02''),
     (''b'', ex_row None None ''2024-03-02''), (''c'', ex_row None None ''2024-02-02'')], runs = []\<rparr>"

text \<open>
  An example world. \<open>ex_urlparse\<close> is \<open>urlparse\<close> on URLs of the shape
  \<open>scheme://host/path\<close> with no query and no fragment, as all URLs of the examples are.
  The feed has one entry; the three listing pages show the same five anchors; the one
  article that can be fetched has a text of 950 characters, and the digest is the SHA-256
  of that text; every other request times out. In \<open>ex_offline\<close> every request fails.
\<close>

definition ex_urlparse :: "string \<Rightarrow> exn + ParseResult" where
  "ex_urlparse u = (let sch = takeWhile (\<lambda>c. c \<noteq> CHR '':'') u; rest = drop (length sch + 3) u
     in Inr \<lparr>scheme = sch, netloc = takeWhile (\<lambda>c. c \<noteq> CHR ''/'') rest,
             path = dropWhile (\<lambda>c. c \<noteq> CHR ''/'') rest\<rparr>)"

definition ex_anchors :: "(string \<times> string) list" where
  "ex_anchors = [(''/mma/ufc/topuria-defiende-titulo'', ''Topuria defiende su titulo del peso pluma''),
     (''https://www.example.com/mma/topuria-vuelve'', ''  Topuria vuelve al octagono en junio  ''),
     (''https://www.example.com/mma'', ''Todas las noticias de MMA''),
     (''https://www.example.com/mma/ufc/logo.png'', ''Logotipo de la seccion de UFC''),
     (''/mma/ufc/x'', ''UFC'')]"

definition ex_text :: string where
  "ex_text = replicate 950 CHR ''a''"

definition ex_world :: world where
  "ex_world = \<lparr>
     http_get = (\<lambda>n u.
        if u = ''https://example.com/ufc-300-topuria'' then Inr (200, u, ''<article>'')
        else if u = ''https://www.dazn.com/es-ES/news'' \<or> u = ''https://www.eurosport.es/mma/''
          \<or> u = ''https://www.eurosport.es/mma/ufc/'' then Inr (200, u, ''<listing>'')
        else Inl (Exception ''ConnectTimeout()'')),
     soup_select = (\<lambda>html. Inr (if html = ''<listing>'' then ex_anchors else [])),
     urlparse = ex_urlparse,
     feedparser_parse = (\<lambda>n u. Inr [\<lparr>entry_title = Some ''UFC 300: Topuria retains title'',
        entry_link = Some ''https://example.com/ufc-300-topuria'', entry_published = None\<rparr>]),
     trafilatura_extract = (\<lambda>html. Inr (if html = ''<article>'' then Some ex_text else None)),
     sha256_hexdigest = (\<lambda>b. ''904cf860ec4f9657c95dc865a65777ba86777bf686748ce97ae250dd45da5e95''),
     utcnow_isoformat = (\<lambda>n. ''2024-05-01T10:00:00+00:00'')\<rparr>"

definition ex_offline :: world where
  "ex_offline = ex_world\<lparr>http_get := (\<lambda>n u. Inl (Exception ''ConnectError()''))\<rparr>"

definition ex_item :: Candidate where
  "ex_item = \<lparr>cand_title = ''UFC 300: Topuria retains title'',
     cand_url = ''https://example.com/ufc-300-topuria'', cand_published = []\<rparr>"

definition ex_source :: Source where
  "ex_source = \<lparr>src_name = ''marca_portada'', src_type = ''rss'',
      src_url = ''https://e00-marca.uecdn.es/rss/portada.xml'', src_sport_hint = ''mixed''\<rparr>"

section \<open>Properties of the store\<close>

lemma or_empty_Some: "or_empty (Some s) = s"
  by (simp add: or_empty_def)

lemma or_zero_Some: "or_zero (Some n) = n"
  by (simp add: or_zero_def)

lemma get_by_url_after_insert:
  "get_by_url st u = None \<Longrightarrow>
   get_by_url (st\<lparr>articles := articles st @ [(u, r)]\<rparr>) u = Some r"
  by (simp add: get_by_url_def map_add_def)

text \<open>
  C1, as the claim states it, fails where the stored row holds \<open>NULL\<close>: the stored
  \<open>content_hash\<close> is \<open>NULL\<close>, the incoming one is the empty string, so the two differ, yet
  \<open>upsert_article\<close> reads the \<open>NULL\<close> as \<open>""\<close>, answers \<open>unchanged\<close> and writes nothing.
\<close>

theorem upsert_article_null_hash_unchanged:
  "get_by_url (ex_store None (Some 5)) (url (ex_article ''UFC 300'' [] 5))
     = Some (ex_row None (Some 5) ''2024-04-30T09:00:00+00:00'')
   \<and> row_content_hash (ex_row None (Some 5) ''2024-04-30T09:00:00+00:00'')
       \<noteq> Some (content_hash (ex_article ''UFC 300'' [] 5))
   \<and> row_extracted_chars (ex_row None (Some 5) ''2024-04-30T09:00:00+00:00'')
       = Some (extracted_chars (ex_article ''UFC 300'' [] 5))
   \<and> upsert_article (ex_store None (Some 5)) (ex_article ''UFC 300'' [] 5)
       = (''unchanged'', ex_store None (Some 5))"
  by (simp add: ex_store_def ex_article_def ex_row_def get_by_url_def upsert_article_def
      or_empty_def or_zero_def)

text \<open>
  C1, amended. For every store and every incoming article whose \<open>url\<close> has a stored row
  \<open>r\<close>: \<open>upsert_article\<close> answers \<open>updated\<close> exactly when the incoming \<open>content_hash\<close> or
  \<open>extracted_chars\<close> differs from the stored value, a stored \<open>NULL\<close> being read as the empty
  string and as 0; otherwise it answers \<open>unchanged\<close> and leaves the store as it was. Where
  neither stored value is \<open>NULL\<close> (so for every row \<open>upsert_article\<close> wrote) that is the
  plain difference of the values. The answer depends on no other field of the article.
\<close>

theorem upsert_article_updated_iff:
  assumes "get_by_url st (url a) = Some r"
  shows "(fst (upsert_article st a) = ''updated'')
           = (or_empty (row_content_hash r) \<noteq> content_hash a
              \<or> or_zero (row_extracted_chars r) \<noteq> extracted_chars a)
       \<and> (fst (upsert_article st a) \<noteq> ''updated''
            \<longrightarrow> upsert_article st a = (''unchanged'', st))
       \<and> (row_content_hash r \<noteq> None \<and> row_extracted_chars r \<noteq> None
            \<longrightarrow> (fst (upsert_article st a) = ''updated'')
                 = (row_content_hash r \<noteq> Some (content_hash a)
                    \<or> row_extracted_chars r \<noteq> Some (extracted_chars a)))
       \<and> (\<forall>b. url b = url a \<and> content_hash b = content_hash a
                \<and> extracted_chars b = extracted_chars a
            \<longrightarrow> fst (upsert_article st b) = fst (upsert_article st a))"
  using assms
  by (auto simp add: upsert_article_def or_empty_Some or_empty_def or_zero_def)

theorem upsert_article_updated_iff_witness:
  "get_by_url (ex_store (Some ''abc'') (Some 950)) (url (ex_article ''UFC 300'' ''abd'' 950))
     = Some (ex_row (Some ''abc'') (Some 950) ''2024-04-30T09:00:00+00:00'')
   \<and> fst (upsert_article (ex_store (Some ''abc'') (Some 950)) (ex_article ''UFC 300'' ''abd'' 950))
       = ''updated''
   \<and> upsert_article (ex_store (Some ''abc'') (Some 950)) (ex_article ''New title'' ''abc'' 950)
       = (''unchanged'', ex_store (Some ''abc'') (Some 950))"
proof -
  have h: "get_by_url (ex_store (Some ''abc'') (Some 950)) (url (ex_article t x 950))
     = Some (ex_row (Some ''abc'') (Some 950) ''2024-04-30T09:00:00+00:00'')" for t x
    by (simp add: ex_store_def ex_article_def get_by_url_def)
  have u: "fst (upsert_article (ex_store (Some ''abc'') (Some 950))
      (ex_article ''UFC 300'' ''abd'' 950)) = ''updated''"
    using upsert_article_updated_iff [OF h [of "''UFC 300''" "''abd''"], THEN conjunct1]
    by (simp add: ex_row_def ex_article_def or_empty_def or_zero_def)
  note t = upsert_article_updated_iff [OF h [of "''New title''" "''abc''"]]
  have "fst (upsert_article (ex_store (Some ''abc'') (Some 950))
      (ex_article ''New title'' ''abc'' 950)) \<noteq> ''updated''"
    using t [THEN conjunct1] by (simp add: ex_row_def ex_article_def or_empty_def or_zero_def)
  then have n: "upsert_article (ex_store (Some ''abc'') (Some 950))
      (ex_article ''New title'' ''abc'' 950) = (''unchanged'', ex_store (Some ''abc'') (Some 950))"
    using t [THEN conjunct2, THEN conjunct1] by blast
  show ?thesis using h u n by simp
qed

text \<open>
  C2. For every article \<open>a\<close> and every store in which \<open>url a\<close> has no row, the first
  \<open>upsert_article\<close> of \<open>a\<close> answers \<open>new\<close>, the second one, on the store the first left,
  answers \<open>unchanged\<close> and leaves that store exactly as it was.
\<close>

theorem upsert_article_twice:
  assumes "get_by_url st (url a) = None"
  shows "fst (upsert_article st a) = ''new''
       \<and> upsert_article (snd (upsert_article st a)) a
           = (''unchanged'', snd (upsert_article st a))"
  using assms
  by (simp add: upsert_article_def get_by_url_after_insert or_empty_Some or_zero_Some to_row_def)

theorem upsert_article_twice_witness:
  "get_by_url init_db (url (ex_article ''UFC 300'' ''abc'' 950)) = None
   \<and> fst (upsert_article init_db (ex_article ''UFC 300'' ''abc'' 950)) = ''new''
   \<and> upsert_article (snd (upsert_article init_db (ex_article ''UFC 300'' ''abc'' 950)))
        (ex_article ''UFC 300'' ''abc'' 950)
       = (''unchanged'', snd (upsert_article init_db (ex_article ''UFC 300'' ''abc'' 950)))
   \<and> articles (snd (upsert_article init_db (ex_article ''UFC 300'' ''abc'' 950)))
       = [(''https://example.com/a'', to_row (ex_article ''UFC 300'' ''abc'' 950))]"
proof -
  have h: "get_by_url init_db (url (ex_article ''UFC 300'' ''abc'' 950)) = None"
    by (simp add: init_db_def get_by_url_def)
  have s: "articles (snd (upsert_article init_db (ex_article ''UFC 300'' ''abc'' 950)))
       = [(''https://example.com/a'', to_row (ex_article ''UFC 300'' ''abc'' 950))]"
    by (simp add: upsert_article_def init_db_def get_by_url_def ex_article_def)
  show ?thesis using h s upsert_article_twice [OF h] by simp
qed

lemma order_by_fetched_at_desc_sorted:
  "sorted_wrt (\<lambda>x y. row_fetched_at (snd y) \<le> row_fetched_at (snd x))
     (order_by_fetched_at_desc rows)"
  unfolding order_by_fetched_at_desc_def
  using sorted_sort_key [of "\<lambda>ur. row_fetched_at (snd ur)" rows]
  by (simp add: sorted_wrt_rev sorted_map)

lemma order_by_fetched_at_desc_mset:
  "mset (order_by_fetched_at_desc rows) = mset rows"
  by (simp add: order_by_fetched_at_desc_def)

text \<open>
  C6. For every store, every \<open>limit\<close> and any two values of \<open>days\<close>, \<open>list_recent\<close> returns
  the same rows: there is an ordering \<open>all\<close> of all stored rows by \<open>fetched_at\<close>
  descending, whatever their timestamps, of which the result is the first \<open>limit\<close> rows
  (all of them when \<open>limit\<close> is negative, as SQLite reads it).
\<close>

theorem list_recent_ignores_days:
  "list_recent st d1 limit = list_recent st d2 limit
   \<and> (\<exists>all. mset all = mset (articles st)
        \<and> sorted_wrt (\<lambda>x y. row_fetched_at (snd y) \<le> row_fetched_at (snd x)) all
        \<and> list_recent st d1 limit = (if limit < 0 then all else take (nat limit) all))"
proof -
  have "list_recent st d1 limit = list_recent st d2 limit"
    by (simp add: list_recent_def)
  moreover have "list_recent st d1 limit
      = (if limit < 0 then order_by_fetched_at_desc (articles st)
         else take (nat limit) (order_by_fetched_at_desc (articles st)))"
    by (simp add: list_recent_def sql_limit_def)
  ultimately show ?thesis
    using order_by_fetched_at_desc_sorted [of "articles st"]
      order_by_fetched_at_desc_mset [of "articles st"]
    by blast
qed

theorem list_recent_ignores_days_witness:
  "list_recent ex_three 1 2 = list_recent ex_three 14 2
   \<and> list_recent ex_three 1 2
       = [(''b'', ex_row None None ''2024-03-02''), (''c'', ex_row None None ''2024-02-02'')]"
proof -
  have "list_recent ex_three 1 2
       = [(''b'', ex_row None None ''2024-03-02''), (''c'', ex_row None None ''2024-02-02'')]"
    by (simp add: list_recent_def sql_limit_def order_by_fetched_at_desc_def ex_three_def
        ex_row_def)
  then show ?thesis using list_recent_ignores_days [of ex_three 1 2 14] by simp
qed

section \<open>Substrings of strings joined by blanks\<close>

lemma contains_sublist: "contains k s = sublist k s"
  by (induction s) (auto simp: sublist_Cons_right)

lemma lower_append: "lower (a @ b) = lower a @ lower b"
  by (simp add: lower_def)

lemma lower_char_space: "lower_char CHR '' '' = CHR '' ''"
  by code_simp

lemma lower_Cons_space: "lower (CHR '' '' # a) = CHR '' '' # lower a"
  by (simp add: lower_def lower_char_space)

lemma split_at_unique:
  assumes "x \<notin> set p" "x \<notin> set q" "p @ x # q = k1 @ x # k2"
  shows "k1 = p \<and> k2 = q"
  using assms by (induction p arbitrary: k1) (auto simp: Cons_eq_append_conv)

lemma prefix_sep:
  assumes "CHR '' '' \<notin> set q"
  shows "prefix q (b @ CHR '' '' # c) = prefix q b"
  using assms by (auto simp: prefix_append prefix_Cons split: list.splits)

lemma sublist_sep_onespace:
  assumes "CHR '' '' \<notin> set p" "CHR '' '' \<notin> set q"
  shows "sublist (p @ CHR '' '' # q) (a @ CHR '' '' # b) =
     (sublist (p @ CHR '' '' # q) a \<or> sublist (p @ CHR '' '' # q) b \<or> (suffix p a \<and> prefix q b))"
proof
  assume "sublist (p @ CHR '' '' # q) (a @ CHR '' '' # b)"
  then consider (l) "sublist (p @ CHR '' '' # q) a" | (r) "sublist (p @ CHR '' '' # q) (CHR '' '' # b)"
    | (m) k1 k2 where "p @ CHR '' '' # q = k1 @ k2" "suffix k1 a" "prefix k2 (CHR '' '' # b)"
    by (auto simp: sublist_append)
  then show "sublist (p @ CHR '' '' # q) a \<or> sublist (p @ CHR '' '' # q) b \<or> (suffix p a \<and> prefix q b)"
  proof cases
    case l then show ?thesis by simp
  next
    case r
    then have "prefix (p @ CHR '' '' # q) (CHR '' '' # b) \<or> sublist (p @ CHR '' '' # q) b"
      by (simp add: sublist_Cons_right)
    then show ?thesis
    proof
      assume pr: "prefix (p @ CHR '' '' # q) (CHR '' '' # b)"
      show ?thesis
      proof (cases p)
        case Nil
        with pr show ?thesis by simp
      next
        case (Cons c p')
        with pr assms(1) show ?thesis by simp
      qed
    qed simp
  next
    case m
    show ?thesis
    proof (cases k2)
      case Nil
      with m show ?thesis by (auto intro: suffix_imp_sublist)
    next
      case (Cons c k2')
      with m(3) have c: "c = CHR '' ''" and pk: "prefix k2' b" by simp_all
      from m(1) Cons c have "p @ CHR '' '' # q = k1 @ CHR '' '' # k2'" by simp
      from split_at_unique [OF assms this] m(2) pk show ?thesis by simp
    qed
  qed
next
  assume "sublist (p @ CHR '' '' # q) a \<or> sublist (p @ CHR '' '' # q) b \<or> (suffix p a \<and> prefix q b)"
  then show "sublist (p @ CHR '' '' # q) (a @ CHR '' '' # b)"
  proof (elim disjE conjE)
    assume "suffix p a" "prefix q b"
    then obtain a' b' where "a = a' @ p" "b = q @ b'" by (auto simp: suffix_def prefix_def)
    then have "a @ CHR '' '' # b = a' @ (p @ CHR '' '' # q) @ b'" by simp
    then show ?thesis unfolding sublist_def by blast
  next
    assume "sublist (p @ CHR '' '' # q) b"
    then show ?thesis by (auto simp: sublist_append sublist_Cons_right)
  qed (simp add: sublist_append)
qed

lemma sublist_sep_nospace:
  assumes "k \<noteq> []" "CHR '' '' \<notin> set k"
  shows "sublist k (a @ CHR '' '' # b) = (sublist k a \<or> sublist k b)"
proof
  assume "sublist k (a @ CHR '' '' # b)"
  then consider (l) "sublist k a" | (r) "sublist k (CHR '' '' # b)"
    | (m) k1 k2 where "k = k1 @ k2" "suffix k1 a" "prefix k2 (CHR '' '' # b)"
    by (auto simp: sublist_append)
  then show "sublist k a \<or> sublist k b"
  proof cases
    case l then show ?thesis by simp
  next
    case r
    then have "prefix k (CHR '' '' # b) \<or> sublist k b" by (simp add: sublist_Cons_right)
    with assms show ?thesis by (cases k) auto
  next
    case m
    show ?thesis
    proof (cases k2)
      case Nil
      with m show ?thesis by (auto intro: suffix_imp_sublist)
    next
      case (Cons c k2')
      with m(3) have "c = CHR '' ''" by simp
      with m(1) Cons assms(2) show ?thesis by simp
    qed
  qed
next
  assume "sublist k a \<or> sublist k b"
  then show "sublist k (a @ CHR '' '' # b)"
    by (auto simp: sublist_append sublist_Cons_right)
qed

lemma sublist3_nospace:
  assumes "k \<noteq> []" "CHR '' '' \<notin> set k"
  shows "sublist k (a @ CHR '' '' # b @ CHR '' '' # c) = (sublist k a \<or> sublist k b \<or> sublist k c)"
  by (simp add: sublist_sep_nospace [OF assms])

lemma sublist3_onespace:
  assumes "CHR '' '' \<notin> set p" "CHR '' '' \<notin> set q"
  shows "sublist (p @ CHR '' '' # q) (a @ CHR '' '' # b @ CHR '' '' # c) =
     (sublist (p @ CHR '' '' # q) a \<or> sublist (p @ CHR '' '' # q) b \<or> sublist (p @ CHR '' '' # q) c
      \<or> (suffix p a \<and> prefix q b) \<or> (suffix p b \<and> prefix q c))"
  by (auto simp add: sublist_sep_onespace [OF assms] prefix_sep [OF assms(2)])

section \<open>Properties of the topic filter and the classifier\<close>

lemma any_in_iff: "any_in ks s = (\<exists>k\<in>set ks. sublist k s)"
  by (simp add: any_in_def list_ex_iff contains_sublist)

lemma any_in_append: "any_in ks s \<Longrightarrow> any_in ks (s @ r)"
  by (auto simp: any_in_iff sublist_append)

lemma lower_joined3:
  "lower (t @ CHR '' '' # u @ CHR '' '' # x) = lower t @ CHR '' '' # lower u @ CHR '' '' # lower x"
  by (simp add: lower_append lower_Cons_space)

lemma lower_joined3_prefix:
  "lower (t @ CHR '' '' # u @ CHR '' '' # x) = lower (t @ CHR '' '' # u) @ CHR '' '' # lower x"
  by (simp add: lower_append lower_Cons_space)

lemma classify_sport_Otro:
  "(classify_sport t u x = ''Otro'') =
     (\<not> any_in sitegen_KEYWORDS_MMA (lower (t @ '' '' @ u @ '' '' @ x))
      \<and> \<not> any_in sitegen_KEYWORDS_BOX (lower (t @ '' '' @ u @ '' '' @ x)))"
  by (auto simp add: classify_sport_def Let_def)

text \<open>
  C10. The topic filter of \<open>funcoina.py\<close> and the one of \<open>pipeline/run.py\<close> return the same
  boolean for every title and URL: their three lists are the same lists and their bodies
  the same body.
\<close>

theorem looks_like_combat_sports_funcoina_eq:
  "funcoina_looks_like_combat_sports t u = looks_like_combat_sports t u"
  by (simp add: funcoina_looks_like_combat_sports_def looks_like_combat_sports_def
      funcoina_KEYWORDS_MMA_def KEYWORDS_MMA_def funcoina_KEYWORDS_BOX_def KEYWORDS_BOX_def
      funcoina_STOPWORDS_URL_def STOPWORDS_URL_def)

theorem looks_like_combat_sports_funcoina_eq_witness:
  "funcoina_looks_like_combat_sports ''UFC 300: Topuria retains title''
       ''https://example.com/ufc-300-topuria''
   \<and> looks_like_combat_sports ''UFC 300: Topuria retains title''
       ''https://example.com/ufc-300-topuria''
   \<and> \<not> funcoina_looks_like_combat_sports ''Resultados UFC'' ''https://example.com/resultados/ufc''
   \<and> \<not> looks_like_combat_sports ''Resultados UFC'' ''https://example.com/resultados/ufc''"
proof -
  have "looks_like_combat_sports ''UFC 300: Topuria retains title''
      ''https://example.com/ufc-300-topuria''"
    by code_simp
  moreover have "\<not> looks_like_combat_sports ''Resultados UFC''
      ''https://example.com/resultados/ufc''"
    by code_simp
  ultimately show ?thesis
    using looks_like_combat_sports_funcoina_eq [of "''UFC 300: Topuria retains title''"
        "''https://example.com/ufc-300-topuria''"]
      looks_like_combat_sports_funcoina_eq [of "''Resultados UFC''"
        "''https://example.com/resultados/ufc''"]
    by simp
qed

text \<open>
  C4, as the claim states it, fails: the two functions do not test the same lists. The
  filter accepts this title and URL on \<open>peso welter\<close>, a keyword of its \<open>KEYWORDS_BOX\<close> that
  the classifier's \<open>KEYWORDS_BOX\<close> lacks, and the classifier returns \<open>Otro\<close> on them.
\<close>

theorem classify_sport_weight_class_Otro:
  "looks_like_combat_sports ''Duelo por el titulo del peso welter''
       ''https://example.com/noticias/2024/duelo-peso-welter''
   \<and> classify_sport ''Duelo por el titulo del peso welter''
       ''https://example.com/noticias/2024/duelo-peso-welter'' [] = ''Otro''"
  by code_simp

text \<open>
  C4, amended. For every title and URL the filter accepts and every text, \<open>classify_sport\<close>
  does not return \<open>Otro\<close>, unless the lowercased \<open>title url\<close> holds no keyword of the
  classifier's two lists and so was accepted on one of the filter's boxing keywords that
  the classifier's list lacks; these are \<open>peso pluma\<close>, \<open>peso welter\<close> and \<open>peso medio\<close>.
\<close>

theorem classify_sport_accepted_not_Otro:
  assumes "looks_like_combat_sports t u"
  shows "(classify_sport t u x \<noteq> ''Otro''
          \<or> (any_in (filter (\<lambda>k. k \<notin> set sitegen_KEYWORDS_BOX) KEYWORDS_BOX)
                (lower (t @ '' '' @ u))
             \<and> \<not> any_in sitegen_KEYWORDS_MMA (lower (t @ '' '' @ u))
             \<and> \<not> any_in sitegen_KEYWORDS_BOX (lower (t @ '' '' @ u))))
       \<and> filter (\<lambda>k. k \<notin> set sitegen_KEYWORDS_BOX) KEYWORDS_BOX
           = [''peso pluma'', ''peso welter'', ''peso medio'']"
proof (cases "classify_sport t u x = ''Otro''")
  case True
  then have n3: "\<not> any_in sitegen_KEYWORDS_MMA (lower (t @ '' '' @ u) @ CHR '' '' # lower x)"
      "\<not> any_in sitegen_KEYWORDS_BOX (lower (t @ '' '' @ u) @ CHR '' '' # lower x)"
    using lower_joined3_prefix [of t u x] by (simp_all add: classify_sport_Otro)
  then have n2: "\<not> any_in sitegen_KEYWORDS_MMA (lower (t @ '' '' @ u))"
      "\<not> any_in sitegen_KEYWORDS_BOX (lower (t @ '' '' @ u))"
    using any_in_append by blast+
  have "KEYWORDS_MMA = sitegen_KEYWORDS_MMA"
    by (simp add: KEYWORDS_MMA_def sitegen_KEYWORDS_MMA_def)
  with assms n2(1) have "any_in KEYWORDS_BOX (lower (t @ '' '' @ u))"
    by (simp add: looks_like_combat_sports_def Let_def split: if_splits)
  with n2(2) have "any_in (filter (\<lambda>k. k \<notin> set sitegen_KEYWORDS_BOX) KEYWORDS_BOX)
      (lower (t @ '' '' @ u))"
    unfolding any_in_iff by auto
  with n2 show ?thesis by (simp add: KEYWORDS_BOX_def sitegen_KEYWORDS_BOX_def)
next
  case False
  then show ?thesis by (simp add: KEYWORDS_BOX_def sitegen_KEYWORDS_BOX_def)
qed

theorem classify_sport_accepted_not_Otro_witness:
  "looks_like_combat_sports ''UFC 300: Topuria retains title''
       ''https://example.com/ufc-300-topuria''
   \<and> classify_sport ''UFC 300: Topuria retains title''
       ''https://example.com/ufc-300-topuria'' [] \<noteq> ''Otro''"
proof -
  have h: "looks_like_combat_sports ''UFC 300: Topuria retains title''
      ''https://example.com/ufc-300-topuria''"
    by code_simp
  have "any_in sitegen_KEYWORDS_MMA (lower (''UFC 300: Topuria retains title'' @ '' '' @
      ''https://example.com/ufc-300-topuria''))"
    by code_simp
  with classify_sport_accepted_not_Otro [OF h, of "[]"] h show ?thesis by blast
qed

lemma any_in_Cons: "any_in (k # ks) s = (sublist k s \<or> any_in ks s)"
  by (simp add: any_in_iff)

lemma any_in_append_keys: "any_in (ks @ ks') s = (any_in ks s \<or> any_in ks' s)"
  by (auto simp: any_in_iff)

lemma any_in_split: "any_in (ks @ k # ks') s = (any_in ks s \<or> sublist k s \<or> any_in ks' s)"
  by (auto simp: any_in_iff)

lemma any_in_nospace3:
  assumes "\<forall>k\<in>set ks. k \<noteq> [] \<and> CHR '' '' \<notin> set k"
  shows "any_in ks (a @ CHR '' '' # b @ CHR '' '' # c) = (any_in ks a \<or> any_in ks b \<or> any_in ks c)"
  using assms by (auto simp: any_in_iff sublist3_nospace)

lemma fight_night:
  "sublist ''fight night'' (a @ CHR '' '' # b @ CHR '' '' # c) =
     (sublist ''fight night'' a \<or> sublist ''fight night'' b \<or> sublist ''fight night'' c
      \<or> (suffix ''fight'' a \<and> prefix ''night'' b) \<or> (suffix ''fight'' b \<and> prefix ''night'' c))"
  using sublist3_onespace [of "''fight''" "''night''" a b c] by simp

lemma box_fields:
  "any_in sitegen_KEYWORDS_BOX (lower (t @ '' '' @ u @ '' '' @ x)) = in_fields sitegen_KEYWORDS_BOX t u x"
proof -
  have "\<forall>k\<in>set sitegen_KEYWORDS_BOX. k \<noteq> [] \<and> CHR '' '' \<notin> set k"
    by (simp add: sitegen_KEYWORDS_BOX_def)
  from any_in_nospace3 [OF this] show ?thesis
    by (simp add: lower_joined3 in_fields_def)
qed

lemma mma_fields:
  assumes "\<not> spans_fields t u" "\<not> spans_fields u x"
  shows "any_in sitegen_KEYWORDS_MMA (lower (t @ '' '' @ u @ '' '' @ x)) = in_fields sitegen_KEYWORDS_MMA t u x"
proof -
  let ?A = "[''ufc'', ''mma'', ''topuria'', ''makhachev'', ''pereira'', ''volkanovski'']"
  let ?B = "[''octagono'', ''oct'' @ [CHR 0xE1] @ ''gono'']"
  let ?J = "lower t @ CHR '' '' # lower u @ CHR '' '' # lower x"
  have split: "sitegen_KEYWORDS_MMA = ?A @ ''fight night'' # ?B"
    by (simp add: sitegen_KEYWORDS_MMA_def)
  have "\<forall>k\<in>set ?A. k \<noteq> [] \<and> CHR '' '' \<notin> set k" by simp
  note A = any_in_nospace3 [OF this, of "lower t" "lower u" "lower x"]
  have "\<forall>k\<in>set ?B. k \<noteq> [] \<and> CHR '' '' \<notin> set k" by simp
  note B = any_in_nospace3 [OF this, of "lower t" "lower u" "lower x"]
  have F: "sublist ''fight night'' ?J = (sublist ''fight night'' (lower t)
      \<or> sublist ''fight night'' (lower u) \<or> sublist ''fight night'' (lower x))"
    using assms unfolding spans_fields_def fight_night by blast
  have "any_in sitegen_KEYWORDS_MMA ?J
      = (any_in ?A ?J \<or> sublist ''fight night'' ?J \<or> any_in ?B ?J)"
    by (simp only: split any_in_split)
  moreover have "in_fields sitegen_KEYWORDS_MMA t u x
      = ((any_in ?A (lower t) \<or> sublist ''fight night'' (lower t) \<or> any_in ?B (lower t))
         \<or> (any_in ?A (lower u) \<or> sublist ''fight night'' (lower u) \<or> any_in ?B (lower u))
         \<or> (any_in ?A (lower x) \<or> sublist ''fight night'' (lower x) \<or> any_in ?B (lower x)))"
    by (simp only: in_fields_def split any_in_split)
  ultimately have "any_in sitegen_KEYWORDS_MMA ?J = in_fields sitegen_KEYWORDS_MMA t u x"
    using A B F by blast
  then show ?thesis by (simp add: lower_joined3)
qed

lemma in_fields_swap12: "in_fields ks a b c = in_fields ks b a c"
  by (auto simp: in_fields_def)

lemma in_fields_swap23: "in_fields ks a b c = in_fields ks a c b"
  by (auto simp: in_fields_def)

lemma classify_sport_in_fields:
  assumes "\<not> spans_fields t u" "\<not> spans_fields u x"
  shows "classify_sport t u x
    = category (in_fields sitegen_KEYWORDS_MMA t u x) (in_fields sitegen_KEYWORDS_BOX t u x)"
  using mma_fields [OF assms] box_fields [of t u x]
  by (simp add: classify_sport_def category_def Let_def)

text \<open>
  C5, as the claim states it, fails in its third part: the fields are joined by blanks and
  the keyword \<open>fight night\<close> holds a blank, so it matches where a URL ending in \<open>fight\<close> is
  followed by a text starting with \<open>Night\<close>, and no longer once title and text change
  places.
\<close>

theorem classify_sport_field_order_matters:
  "classify_sport ''Resumen'' ''https://example.com/videos/fight'' ''Night of legends'' = ''MMA''
   \<and> classify_sport ''Night of legends'' ''https://example.com/videos/fight'' ''Resumen''
       = ''Otro''"
  by code_simp

text \<open>
  C5, amended. For every title, URL and text, \<open>classify_sport\<close> returns one of \<open>MMA\<close>,
  \<open>Boxeo\<close>, \<open>Mixto\<close>, \<open>Otro\<close>; arguments with the same lowercase forms give the same
  category; and the category is the same under every permutation of the three arguments
  provided \<open>fight night\<close> matches across no boundary, that is, no argument ends in
  \<open>fight\<close> while another one starts with \<open>night\<close> (in any letter case).
\<close>

theorem classify_sport_total_caseless_order:
  "classify_sport t u x \<in> {''MMA'', ''Boxeo'', ''Mixto'', ''Otro''}
   \<and> (lower t' = lower t \<and> lower u' = lower u \<and> lower x' = lower x
        \<longrightarrow> classify_sport t' u' x' = classify_sport t u x)
   \<and> (\<not> spans_fields t u \<and> \<not> spans_fields u t \<and> \<not> spans_fields t x
        \<and> \<not> spans_fields x t \<and> \<not> spans_fields u x \<and> \<not> spans_fields x u
        \<longrightarrow> classify_sport t x u = classify_sport t u x
          \<and> classify_sport u t x = classify_sport t u x
          \<and> classify_sport u x t = classify_sport t u x
          \<and> classify_sport x t u = classify_sport t u x
          \<and> classify_sport x u t = classify_sport t u x)"
proof (intro conjI impI)
  show "classify_sport t u x \<in> {''MMA'', ''Boxeo'', ''Mixto'', ''Otro''}"
    by (simp add: classify_sport_def Let_def)
next
  assume "lower t' = lower t \<and> lower u' = lower u \<and> lower x' = lower x"
  then have "lower (t' @ CHR '' '' # u' @ CHR '' '' # x')
      = lower (t @ CHR '' '' # u @ CHR '' '' # x)"
    by (simp add: lower_joined3)
  then show "classify_sport t' u' x' = classify_sport t u x"
    by (simp add: classify_sport_def)
next
  assume h: "\<not> spans_fields t u \<and> \<not> spans_fields u t \<and> \<not> spans_fields t x
        \<and> \<not> spans_fields x t \<and> \<not> spans_fields u x \<and> \<not> spans_fields x u"
  have m: "in_fields ks t x u = in_fields ks t u x" "in_fields ks u t x = in_fields ks t u x"
    "in_fields ks u x t = in_fields ks t u x" "in_fields ks x t u = in_fields ks t u x"
    "in_fields ks x u t = in_fields ks t u x" for ks
    by (auto simp: in_fields_def)
  from h have 0: "classify_sport t u x
    = category (in_fields sitegen_KEYWORDS_MMA t u x) (in_fields sitegen_KEYWORDS_BOX t u x)"
    by (simp add: classify_sport_in_fields)
  from h show "classify_sport t x u = classify_sport t u x"
    unfolding 0 by (simp add: classify_sport_in_fields m)
  from h show "classify_sport u t x = classify_sport t u x"
    unfolding 0 by (simp add: classify_sport_in_fields m)
  from h show "classify_sport u x t = classify_sport t u x"
    unfolding 0 by (simp add: classify_sport_in_fields m)
  from h show "classify_sport x t u = classify_sport t u x"
    unfolding 0 by (simp add: classify_sport_in_fields m)
  from h show "classify_sport x u t = classify_sport t u x"
    unfolding 0 by (simp add: classify_sport_in_fields m)
qed

theorem classify_sport_total_caseless_order_witness:
  "classify_sport ''CANELO vs Topuria'' ''HTTPS://EXAMPLE.COM/A'' ''Texto''
     = classify_sport ''Canelo vs Topuria'' ''https://example.com/a'' ''texto''
   \<and> classify_sport ''Canelo vs Topuria'' ''https://example.com/a'' ''texto'' = ''Mixto''
   \<and> classify_sport ''texto'' ''Canelo vs Topuria'' ''https://example.com/a'' = ''Mixto''
   \<and> classify_sport ''https://example.com/a'' ''texto'' ''Canelo vs Topuria'' = ''Mixto''"
proof -
  note t = classify_sport_total_caseless_order [of "''Canelo vs Topuria''"
      "''https://example.com/a''" "''texto''" "''CANELO vs Topuria''" "''HTTPS://EXAMPLE.COM/A''"
      "''Texto''"]
  have l: "lower ''CANELO vs Topuria'' = lower ''Canelo vs Topuria''"
    "lower ''HTTPS://EXAMPLE.COM/A'' = lower ''https://example.com/a''"
    "lower ''Texto'' = lower ''texto''"
    by code_simp+
  have n: "\<not> spans_fields ''Canelo vs Topuria'' ''https://example.com/a''"
    "\<not> spans_fields ''https://example.com/a'' ''Canelo vs Topuria''"
    "\<not> spans_fields ''Canelo vs Topuria'' ''texto''"
    "\<not> spans_fields ''texto'' ''Canelo vs Topuria''"
    "\<not> spans_fields ''https://example.com/a'' ''texto''"
    "\<not> spans_fields ''texto'' ''https://example.com/a''"
    by code_simp+
  have v: "classify_sport ''Canelo vs Topuria'' ''https://example.com/a'' ''texto'' = ''Mixto''"
    by code_simp
  from t l have "classify_sport ''CANELO vs Topuria'' ''HTTPS://EXAMPLE.COM/A'' ''Texto''
     = classify_sport ''Canelo vs Topuria'' ''https://example.com/a'' ''texto''"
    by blast
  moreover from t n have "classify_sport ''texto'' ''Canelo vs Topuria'' ''https://example.com/a''
      = classify_sport ''Canelo vs Topuria'' ''https://example.com/a'' ''texto''"
    "classify_sport ''https://example.com/a'' ''texto'' ''Canelo vs Topuria''
      = classify_sport ''Canelo vs Topuria'' ''https://example.com/a'' ''texto''"
    by blast+
  ultimately show ?thesis using v by simp
qed

section \<open>Properties of listing-mode discovery\<close>

lemma of_char_lower_char:
  "(of_char (lower_char c) :: nat) = (let n = (of_char c :: nat) in
     if (65 \<le> n \<and> n \<le> 90) \<or> (192 \<le> n \<and> n \<le> 222 \<and> n \<noteq> 215) then n + 32 else n)"
  by (simp add: lower_char_def Let_def)

lemma slash_iff: "(d = CHR ''/'') = ((of_char d :: nat) = 47)"
proof -
  have "(of_char CHR ''/'' :: nat) = 47" by simp
  then show ?thesis by (metis of_char_eq_iff)
qed

lemma lower_char_slash: "(lower_char c = CHR ''/'') = (c = CHR ''/'')"
  unfolding slash_iff [of "lower_char c"] slash_iff [of c] of_char_lower_char
  by (auto simp: Let_def)

lemma count_char_lower: "count_char CHR ''/'' (lower s) = count_char CHR ''/'' s"
  by (induction s) (simp_all add: count_char_def lower_def lower_char_slash)

lemma anchor_candidate_depth:
  "anchor_candidate w fu a = Inr (Some c) \<Longrightarrow> 4 \<le> count_char CHR ''/'' (cand_url c)"
  by (auto simp: anchor_candidate_def Let_def count_char_lower split: if_splits sum.splits)

lemma collect_candidates_depth:
  "collect_candidates w fu as = Inr cs \<Longrightarrow> \<forall>c\<in>set cs. 4 \<le> count_char CHR ''/'' (cand_url c)"
  by (induction as arbitrary: cs)
    (auto split: sum.splits option.splits dest: anchor_candidate_depth)

lemma dedupe_subset: "set (dedupe cs seen out limit) \<subseteq> set cs \<union> set out"
  by (induction cs seen out limit rule: dedupe.induct) auto

text \<open>
  C7, as the claim states it, fails: \<open>href_l.count("/")\<close> counts the separators of the
  whole URL, the two of \<open>https://\<close> among them, not those of its path. The second anchor
  of the example page is returned, and the path of its URL has two separators.
\<close>

theorem get_urls_from_html_list_shallow_path:
  "get_urls_from_html_list ex_world 0 ''https://www.dazn.com/es-ES/news'' 60
     = Inr [\<lparr>cand_title = ''Topuria defiende su titulo del peso pluma'',
              cand_url = ''https://www.dazn.com/mma/ufc/topuria-defiende-titulo'',
              cand_published = []\<rparr>,
            \<lparr>cand_title = ''Topuria vuelve al octagono en junio'',
              cand_url = ''https://www.example.com/mma/topuria-vuelve'',
              cand_published = []\<rparr>]
   \<and> urlparse ex_world ''https://www.example.com/mma/topuria-vuelve''
       = Inr \<lparr>scheme = ''https'', netloc = ''www.example.com'', path = ''/mma/topuria-vuelve''\<rparr>
   \<and> count_char CHR ''/'' ''/mma/topuria-vuelve'' = 2"
  by code_simp

text \<open>
  C7, amended. In listing-mode discovery every anchor whose resolved href contains fewer
  than 4 characters \<open>/\<close> in all, those of \<open>://\<close> counted, is discarded: every candidate the
  loop body appends, and so every candidate \<open>get_urls_from_html_list\<close> returns, has a URL
  with at least 4 characters \<open>/\<close>.
\<close>

theorem get_urls_from_html_list_depth:
  "(anchor_candidate w fu a = Inr (Some c) \<longrightarrow> 4 \<le> count_char CHR ''/'' (cand_url c))
   \<and> (get_urls_from_html_list w n list_url limit = Inr out
        \<longrightarrow> (\<forall>c\<in>set out. 4 \<le> count_char CHR ''/'' (cand_url c)))"
proof (intro conjI impI)
  assume "get_urls_from_html_list w n list_url limit = Inr out"
  then obtain fu as cs where "collect_candidates w fu as = Inr cs" "out = dedupe cs {} [] limit"
    by (auto simp: get_urls_from_html_list_def split: sum.splits prod.splits)
  with collect_candidates_depth dedupe_subset [of cs "{}" "[]" limit]
  show "\<forall>c\<in>set out. 4 \<le> count_char CHR ''/'' (cand_url c)" by fastforce
qed (rule anchor_candidate_depth)

theorem get_urls_from_html_list_depth_witness:
  "anchor_candidate ex_world ''https://www.dazn.com/es-ES/news''
       (''/mma/ufc/topuria-defiende-titulo'', ''Topuria defiende su titulo del peso pluma'')
     = Inr (Some \<lparr>cand_title = ''Topuria defiende su titulo del peso pluma'',
              cand_url = ''https://www.dazn.com/mma/ufc/topuria-defiende-titulo'',
              cand_published = []\<rparr>)
   \<and> 4 \<le> count_char CHR ''/'' ''https://www.dazn.com/mma/ufc/topuria-defiende-titulo''
   \<and> anchor_candidate ex_world ''https://www.dazn.com/es-ES/news''
       (''https://www.example.com/mma'', ''Todas las noticias de MMA'') = Inr None
   \<and> count_char CHR ''/'' ''https://www.example.com/mma'' = 3"
proof -
  have a: "anchor_candidate ex_world ''https://www.dazn.com/es-ES/news''
       (''/mma/ufc/topuria-defiende-titulo'', ''Topuria defiende su titulo del peso pluma'')
     = Inr (Some \<lparr>cand_title = ''Topuria defiende su titulo del peso pluma'',
              cand_url = ''https://www.dazn.com/mma/ufc/topuria-defiende-titulo'',
              cand_published = []\<rparr>)"
    by code_simp
  have b: "anchor_candidate ex_world ''https://www.dazn.com/es-ES/news''
       (''https://www.example.com/mma'', ''Todas las noticias de MMA'') = Inr None"
    by code_simp
  have c: "count_char CHR ''/'' ''https://www.example.com/mma'' = 3"
    by code_simp
  from get_urls_from_html_list_depth [THEN conjunct1, rule_format, OF a]
  have "4 \<le> count_char CHR ''/'' ''https://www.dazn.com/mma/ufc/topuria-defiende-titulo''"
    by simp
  with a b c show ?thesis by simp
qed

section \<open>Properties of the orchestrator\<close>

lemma has_url_iff: "has_url st u = (u \<in> fst ` set (articles st))"
  by (simp add: has_url_def map_of_eq_None_iff)

lemma upsert_article_keeps_urls:
  "has_url st v \<Longrightarrow> has_url (snd (upsert_article st a)) v"
  by (auto simp: has_url_iff upsert_article_def image_iff split: option.splits) force+

lemma fetch_ok_snoc:
  assumes "fetch_ok cs" "\<forall>v. e \<noteq> FetchCandidate v"
  shows "fetch_ok (cs @ [e])"
  unfolding fetch_ok_def
proof (intro allI impI)
  fix i v assume h: "i < length (cs @ [e]) \<and> (cs @ [e]) ! i = FetchCandidate v"
  with assms(2) have i: "i < length cs" "cs ! i = FetchCandidate v"
    by (auto simp: nth_append split: if_splits)
  with assms(1) have "0 < i \<and> cs ! (i - 1) = HasUrl v False \<and> (\<forall>j<i. cs ! j \<noteq> HasUrl v True)"
    unfolding fetch_ok_def by blast
  with i(1) show "0 < i \<and> (cs @ [e]) ! (i - 1) = HasUrl v False
      \<and> (\<forall>j<i. (cs @ [e]) ! j \<noteq> HasUrl v True)"
    by (auto simp: nth_append)
qed

lemma fetch_ok_check_fetch:
  assumes "fetch_ok cs" "HasUrl u True \<notin> set cs"
  shows "fetch_ok (cs @ [HasUrl u False, FetchCandidate u])"
  unfolding fetch_ok_def
proof (intro allI impI)
  let ?cs = "cs @ [HasUrl u False, FetchCandidate u]"
  fix i v assume h: "i < length ?cs \<and> ?cs ! i = FetchCandidate v"
  then consider (old) "i < length cs" "cs ! i = FetchCandidate v" | (new) "i = Suc (length cs)" "v = u"
    by (auto simp: nth_append less_Suc_eq split: if_splits)
  then show "0 < i \<and> ?cs ! (i - 1) = HasUrl v False \<and> (\<forall>j<i. ?cs ! j \<noteq> HasUrl v True)"
  proof cases
    case old
    with assms(1) have "0 < i \<and> cs ! (i - 1) = HasUrl v False \<and> (\<forall>j<i. cs ! j \<noteq> HasUrl v True)"
      unfolding fetch_ok_def by blast
    with old(1) show ?thesis by (auto simp: nth_append)
  next
    case new
    have "cs ! j \<noteq> HasUrl u True" if "j < length cs" for j
      using assms(2) that nth_mem by metis
    with new show ?thesis by (auto simp: nth_append less_Suc_eq)
  qed
qed

lemma process_candidate_calls:
  "calls (process_candidate w src it s) = calls s @
     (if \<not> looks_like_combat_sports (cand_title it) (cand_url it) then []
      else if has_url (store s) (cand_url it) then [HasUrl (cand_url it) True]
      else [HasUrl (cand_url it) False, FetchCandidate (cand_url it)])"
  by (simp add: process_candidate_def Let_def split: sum.splits prod.splits)

lemma process_candidate_keeps_urls:
  "has_url (store s) v \<Longrightarrow> has_url (store (process_candidate w src it s)) v"
  by (simp add: process_candidate_def Let_def upsert_article_keeps_urls split: sum.splits prod.splits)

lemma process_candidate_inv:
  assumes "calls_inv s"
  shows "calls_inv (process_candidate w src it s)"
proof -
  let ?u = "cand_url it"
  from assms have f: "fetch_ok (calls s)"
    and k: "\<And>v. HasUrl v True \<in> set (calls s) \<Longrightarrow> has_url (store s) v"
    by (auto simp: calls_inv_def)
  consider (rej) "\<not> looks_like_combat_sports (cand_title it) ?u"
    | (skip) "looks_like_combat_sports (cand_title it) ?u" "has_url (store s) ?u"
    | (go) "looks_like_combat_sports (cand_title it) ?u" "\<not> has_url (store s) ?u"
    by blast
  then show ?thesis
  proof cases
    case rej
    with f k process_candidate_keeps_urls [of s _ w src it] show ?thesis
      by (auto simp: calls_inv_def process_candidate_calls)
  next
    case skip
    with f k process_candidate_keeps_urls [of s _ w src it] fetch_ok_snoc [OF f, of "HasUrl ?u True"]
    show ?thesis
      by (auto simp: calls_inv_def process_candidate_calls)
  next
    case go
    with k have "HasUrl ?u True \<notin> set (calls s)" by blast
    from fetch_ok_check_fetch [OF f this] go k process_candidate_keeps_urls [of s _ w src it]
    show ?thesis
      by (auto simp: calls_inv_def process_candidate_calls)
  qed
qed

lemma process_items_inv: "calls_inv s \<Longrightarrow> calls_inv (process_items w src items s)"
  by (induction items arbitrary: s) (simp_all add: process_candidate_inv)

lemma calls_inv_listing:
  "calls_inv s \<Longrightarrow> calls_inv (s\<lparr>clock := n, calls := calls s @ [FetchListing u]\<rparr>)"
  by (simp add: calls_inv_def fetch_ok_snoc)

lemma calls_inv_clock: "calls_inv s \<Longrightarrow> calls_inv (s\<lparr>clock := n\<rparr>)"
  by (simp add: calls_inv_def)

lemma process_sources_inv:
  "calls_inv s \<Longrightarrow> calls_inv (snd (process_sources w lim srcs s))"
  by (induction srcs arbitrary: s)
    (auto simp: process_items_inv calls_inv_listing calls_inv_clock split: sum.splits)

lemma has_url_record_run: "has_url (record_run st k r) v = has_url st v"
  by (simp add: has_url_def record_run_def)

lemma main_inv: "calls_inv (snd (main w lim db))"
proof -
  have "calls_inv (initial_state db)"
    by (simp add: calls_inv_def initial_state_def fetch_ok_def)
  from process_sources_inv [OF this, of w lim SOURCES] show ?thesis
    by (auto simp: main_def Let_def calls_inv_def has_url_record_run split: prod.splits option.splits)
qed

lemma row_meets_threshold_explicit:
  "row_meets_threshold r \<Longrightarrow>
   \<exists>n h. row_extracted_chars r = Some n \<and> 900 \<le> n \<and> row_content_hash r = Some h \<and> h \<noteq> []"
  by (cases "row_extracted_chars r"; cases "row_content_hash r")
    (simp_all add: row_meets_threshold_def MIN_CHARS_def)

lemma upsert_article_meets_threshold:
  assumes "meets_threshold st" "MIN_CHARS \<le> extracted_chars a" "content_hash a \<noteq> []"
  shows "meets_threshold (snd (upsert_article st a))"
proof -
  have r: "row_meets_threshold (to_row a)"
    using assms(2,3) by (simp add: row_meets_threshold_def to_row_def)
  show ?thesis
  proof (cases "get_by_url st (url a)")
    case None
    with assms(1) r show ?thesis by (simp add: upsert_article_def meets_threshold_def)
  next
    case (Some e)
    with assms(1) r show ?thesis
      by (auto simp: upsert_article_def meets_threshold_def list_all_iff)
  qed
qed

lemma sha_nonempty: "\<forall>b. length (sha256_hexdigest w b) = 64 \<Longrightarrow> sha w txt \<noteq> []"
proof -
  assume "\<forall>b. length (sha256_hexdigest w b) = 64"
  then have "length (sha w txt) = 64" by (simp add: sha_def Let_def)
  then show ?thesis by auto
qed

lemma process_candidate_meets_threshold:
  assumes "\<forall>b. length (sha256_hexdigest w b) = 64" "meets_threshold (store s)"
  shows "meets_threshold (store (process_candidate w src it s))"
  using assms
  by (auto simp: process_candidate_def Let_def fetched_row_def MIN_CHARS_def sha_nonempty
      split: sum.splits prod.splits intro!: upsert_article_meets_threshold)

lemma process_items_meets_threshold:
  "\<forall>b. length (sha256_hexdigest w b) = 64 \<Longrightarrow> meets_threshold (store s) \<Longrightarrow>
   meets_threshold (store (process_items w src items s))"
  by (induction items arbitrary: s) (simp_all add: process_candidate_meets_threshold)

lemma process_sources_meets_threshold:
  "\<forall>b. length (sha256_hexdigest w b) = 64 \<Longrightarrow> meets_threshold (store s) \<Longrightarrow>
   meets_threshold (store (snd (process_sources w lim srcs s)))"
  by (induction srcs arbitrary: s)
    (auto simp: process_items_meets_threshold split: sum.splits)

lemma main_meets_threshold:
  assumes "\<forall>b. length (sha256_hexdigest w b) = 64" "meets_threshold db"
  shows "meets_threshold (store (snd (main w lim db)))"
proof -
  from assms(2) have "meets_threshold (store (initial_state db))"
    by (simp add: initial_state_def)
  from process_sources_meets_threshold [OF assms(1) this, of lim SOURCES] show ?thesis
    by (auto simp: main_def Let_def meets_threshold_def record_run_def
        split: prod.splits option.splits)
qed

lemma pipeline_runs_meets_threshold:
  "\<forall>wl\<in>set rs. \<forall>b. length (sha256_hexdigest (fst wl) b) = 64 \<Longrightarrow> meets_threshold db \<Longrightarrow>
   meets_threshold (pipeline_runs rs db)"
  by (induction rs arbitrary: db) (auto simp: main_meets_threshold)

lemma process_candidate_short_text:
  assumes "fetch_and_extract w (clock s) (cand_url it) = Inr (status, furl, body, dmn)"
    "int (length body) < MIN_CHARS"
  shows "store (process_candidate w src it s) = store s"
  using assms by (simp add: process_candidate_def Let_def fetched_row_def)

subsection \<open>The example worlds, evaluated\<close>

lemma ex_item_on_topic: "looks_like_combat_sports (cand_title ex_item) (cand_url ex_item)"
  unfolding ex_item_def by code_simp

lemma isspace_a: "\<not> isspace CHR ''a''"
  by code_simp

lemma strip_ex_text: "strip ex_text = ex_text"
  by (simp add: strip_def ex_text_def isspace_a)

lemma ex_urlparse_item:
  "ex_urlparse ''https://example.com/ufc-300-topuria''
     = Inr \<lparr>scheme = ''https'', netloc = ''example.com'', path = ''/ufc-300-topuria''\<rparr>"
  by code_simp

lemma ex_fetch_item:
  "fetch_and_extract ex_world n (cand_url ex_item)
     = Inr (200, ''https://example.com/ufc-300-topuria'', ex_text, ''example.com'')"
  by (simp add: fetch_and_extract_def fetch_def extract_text_def ex_world_def ex_item_def
      or_empty_def strip_ex_text ex_urlparse_item)

lemma ex_offline_rss:
  "get_urls_from_rss ex_offline n u 30 = Inr [ex_item]"
  by (simp add: get_urls_from_rss_def ex_offline_def ex_world_def slice_to_def or_empty_def
      ex_item_def)

lemma ex_offline_listing:
  "get_urls_from_html_list ex_offline n u lim = Inl (Exception ''ConnectError()'')"
  by (simp add: get_urls_from_html_list_def fetch_def ex_offline_def)

lemma ex_offline_fetch:
  "fetch_and_extract ex_offline n u = Inl (Exception ''ConnectError()'')"
  by (simp add: fetch_and_extract_def fetch_def ex_offline_def)

lemma ex_offline_main_calls:
  "calls (snd (main ex_offline 30 init_db))
     = [HasUrl ''https://example.com/ufc-300-topuria'' False,
        FetchCandidate ''https://example.com/ufc-300-topuria'',
        FetchListing ''https://www.dazn.com/es-ES/news'']"
proof -
  have "has_url init_db u = False" for u
    by (simp add: has_url_def init_db_def)
  with ex_item_on_topic show ?thesis
    by (simp add: main_def SOURCES_def initial_state_def ex_offline_rss ex_offline_listing
        ex_offline_fetch process_candidate_def Let_def ex_item_def)
qed

lemma ex_item_stored:
  "articles (store (process_candidate ex_world ex_source ex_item (initial_state init_db)))
     = [(''https://example.com/ufc-300-topuria'',
         to_row \<lparr>url = ''https://example.com/ufc-300-topuria'',
           final_url = ''https://example.com/ufc-300-topuria'',
           title = ''UFC 300: Topuria retains title'', source = ''marca_portada'',
           published = [], domain = ''example.com'',
           fetched_at = ''2024-05-01T10:00:00+00:00'', extracted_chars = 950,
           content_hash = ''904cf860ec4f9657c95dc865a65777ba86777bf686748ce97ae250dd45da5e95'',
           text' = ex_text\<rparr>)]"
proof -
  have h: "has_url init_db u = False" for u
    by (simp add: has_url_def init_db_def)
  have l: "length ex_text = 950" "ex_text \<noteq> []" by (simp_all add: ex_text_def)
  have g: "sha ex_world x = ''904cf860ec4f9657c95dc865a65777ba86777bf686748ce97ae250dd45da5e95''" for x
    by (simp add: sha_def ex_world_def Let_def)
  have n: "now_utc_iso ex_world k = ''2024-05-01T10:00:00+00:00''" for k
    by (simp add: now_utc_iso_def ex_world_def)
  have e: "get_by_url init_db u = None" "articles init_db = []" for u
    by (simp_all add: get_by_url_def init_db_def)
  from ex_item_on_topic ex_fetch_item [of 1] show ?thesis
    by (simp add: process_candidate_def Let_def initial_state_def h l g n e fetched_row_def
        MIN_CHARS_def upsert_article_def ex_source_def ex_item_def)
qed

lemma ex_fetch_listing_page:
  "fetch_and_extract ex_world n ''https://www.dazn.com/es-ES/news''
     = Inr (200, ''https://www.dazn.com/es-ES/news'', [], ''www.dazn.com'')"
proof -
  have "ex_urlparse ''https://www.dazn.com/es-ES/news''
     = Inr \<lparr>scheme = ''https'', netloc = ''www.dazn.com'', path = ''/es-ES/news''\<rparr>"
    by code_simp
  then show ?thesis
    by (simp add: fetch_and_extract_def fetch_def extract_text_def ex_world_def or_empty_def
        strip_def)
qed

subsection \<open>The claims about a run\<close>

text \<open>
  C3. For every URL with a row in \<open>articles\<close>, \<open>has_url\<close> returns true. A candidate that
  passes the topic filter and whose URL \<open>has_url\<close> finds is skipped: the step counts it
  in \<open>skipped_existing\<close>, logs the one call \<open>has_url\<close> and changes nothing else, so it
  fetches nothing. In the log of every run of \<open>main\<close>, complete or ended by an exception of
  discovery, each \<open>fetch\<close> for a candidate stands right after the \<open>has_url\<close> of the same URL
  answered false, and no \<open>has_url\<close> of that URL has answered true before it.
\<close>

theorem fetch_only_after_negative_has_url:
  "(u \<in> fst ` set (articles st) \<longrightarrow> has_url st u)
   \<and> (looks_like_combat_sports (cand_title it) (cand_url it) \<and> has_url (store s) (cand_url it)
        \<longrightarrow> process_candidate w src it s
            = s\<lparr>total_candidates := total_candidates s + 1,
                 skipped_existing := skipped_existing s + 1,
                 calls := calls s @ [HasUrl (cand_url it) True]\<rparr>)
   \<and> (\<forall>i v. i < length (calls (snd (main w lim db)))
          \<and> calls (snd (main w lim db)) ! i = FetchCandidate v
        \<longrightarrow> 0 < i \<and> calls (snd (main w lim db)) ! (i - 1) = HasUrl v False
            \<and> (\<forall>j<i. calls (snd (main w lim db)) ! j \<noteq> HasUrl v True))"
proof (intro conjI)
  show "u \<in> fst ` set (articles st) \<longrightarrow> has_url st u"
    by (simp add: has_url_iff)
  show "looks_like_combat_sports (cand_title it) (cand_url it) \<and> has_url (store s) (cand_url it)
        \<longrightarrow> process_candidate w src it s
            = s\<lparr>total_candidates := total_candidates s + 1,
                 skipped_existing := skipped_existing s + 1,
                 calls := calls s @ [HasUrl (cand_url it) True]\<rparr>"
    by (simp add: process_candidate_def Let_def)
  from main_inv [of w lim db]
  show "\<forall>i v. i < length (calls (snd (main w lim db)))
          \<and> calls (snd (main w lim db)) ! i = FetchCandidate v
        \<longrightarrow> 0 < i \<and> calls (snd (main w lim db)) ! (i - 1) = HasUrl v False
            \<and> (\<forall>j<i. calls (snd (main w lim db)) ! j \<noteq> HasUrl v True)"
    unfolding calls_inv_def fetch_ok_def by blast
qed

theorem fetch_only_after_negative_has_url_witness:
  "has_url (ex_store (Some ''abc'') (Some 950)) ''https://example.com/a''
   \<and> process_candidate ex_world ex_source
        \<lparr>cand_title = ''UFC 300'', cand_url = ''https://example.com/a'', cand_published = []\<rparr>
        (initial_state (ex_store (Some ''abc'') (Some 950)))
       = (initial_state (ex_store (Some ''abc'') (Some 950)))
           \<lparr>total_candidates := 1, skipped_existing := 1,
            calls := [HasUrl ''https://example.com/a'' True]\<rparr>
   \<and> calls (snd (main ex_offline 30 init_db))
       = [HasUrl ''https://example.com/ufc-300-topuria'' False,
          FetchCandidate ''https://example.com/ufc-300-topuria'',
          FetchListing ''https://www.dazn.com/es-ES/news'']
   \<and> calls (snd (main ex_offline 30 init_db)) ! 0
       = HasUrl ''https://example.com/ufc-300-topuria'' False"
proof -
  note t = fetch_only_after_negative_has_url
  have "''https://example.com/a'' \<in> fst ` set (articles (ex_store (Some ''abc'') (Some 950)))"
    by (simp add: ex_store_def)
  with t [where u = "''https://example.com/a''" and st = "ex_store (Some ''abc'') (Some 950)"]
  have a: "has_url (ex_store (Some ''abc'') (Some 950)) ''https://example.com/a''"
    by blast
  have "looks_like_combat_sports ''UFC 300'' ''https://example.com/a''"
    by code_simp
  with a t [where it = "\<lparr>cand_title = ''UFC 300'', cand_url = ''https://example.com/a'',
        cand_published = []\<rparr>"
      and s = "initial_state (ex_store (Some ''abc'') (Some 950))"
      and w = ex_world and src = ex_source]
  have b: "process_candidate ex_world ex_source
        \<lparr>cand_title = ''UFC 300'', cand_url = ''https://example.com/a'', cand_published = []\<rparr>
        (initial_state (ex_store (Some ''abc'') (Some 950)))
       = (initial_state (ex_store (Some ''abc'') (Some 950)))
           \<lparr>total_candidates := 1, skipped_existing := 1,
            calls := [HasUrl ''https://example.com/a'' True]\<rparr>"
    by (simp add: initial_state_def)
  note c = ex_offline_main_calls
  from c have "1 < length (calls (snd (main ex_offline 30 init_db)))
      \<and> calls (snd (main ex_offline 30 init_db)) ! 1
          = FetchCandidate ''https://example.com/ufc-300-topuria''"
    by simp
  with t [where w = ex_offline and lim = 30 and db = init_db, THEN conjunct2, THEN conjunct2,
      rule_format, of 1 "''https://example.com/ufc-300-topuria''"]
  have d: "calls (snd (main ex_offline 30 init_db)) ! 0
       = HasUrl ''https://example.com/ufc-300-topuria'' False"
    by simp
  from a b c d show ?thesis by simp
qed

text \<open>
  C8. For a candidate that reaches the \<open>try\<close> block (it passes the topic filter and its URL
  has no row): if \<open>fetch\<close> raises an exception, or \<open>fetch\<close> returns and \<open>extract_text\<close>
  raises one, the step appends one debug row for that candidate, with \<open>http_status\<close>,
  \<open>final_url\<close> and \<open>domain\<close> null, \<open>extracted_chars\<close> 0, \<open>extract_ok\<close> false and the
  \<open>repr\<close> of the exception as \<open>error\<close>; it leaves the store as it was; and the loop goes on
  with the next candidate from the state the step left.
\<close>

theorem candidate_exception_recorded:
  assumes "looks_like_combat_sports (cand_title it) (cand_url it)"
    and "\<not> has_url (store s) (cand_url it)"
    and "fetch w (clock s) (cand_url it) = Inl (Exception r)
         \<or> (\<exists>status furl html. fetch w (clock s) (cand_url it) = Inr (status, furl, html)
               \<and> extract_text w html = Inl (Exception r))"
  shows "rows_probe (process_candidate w src it s) = rows_probe s @ [error_row src it (Exception r)]
    \<and> probe_url (error_row src it (Exception r)) = cand_url it
    \<and> probe_http_status (error_row src it (Exception r)) = None
    \<and> probe_final_url (error_row src it (Exception r)) = None
    \<and> probe_domain (error_row src it (Exception r)) = None
    \<and> probe_extracted_chars (error_row src it (Exception r)) = 0
    \<and> \<not> probe_extract_ok (error_row src it (Exception r))
    \<and> probe_error (error_row src it (Exception r)) = Some r
    \<and> store (process_candidate w src it s) = store s
    \<and> process_items w src (it # items) s
        = process_items w src items (process_candidate w src it s)"
proof -
  from assms(3) have "fetch_and_extract w (clock s) (cand_url it) = Inl (Exception r)"
    by (auto simp: fetch_and_extract_def)
  with assms(1,2) show ?thesis
    by (simp add: process_candidate_def Let_def error_row_def)
qed

theorem candidate_exception_recorded_witness:
  "rows_probe (process_candidate ex_offline ex_source ex_item (initial_state init_db))
     = [error_row ex_source ex_item (Exception ''ConnectError()'')]
   \<and> probe_http_status (error_row ex_source ex_item (Exception ''ConnectError()'')) = None
   \<and> probe_error (error_row ex_source ex_item (Exception ''ConnectError()''))
       = Some ''ConnectError()''
   \<and> store (process_candidate ex_offline ex_source ex_item (initial_state init_db)) = init_db"
proof -
  have h: "\<not> has_url (store (initial_state init_db)) (cand_url ex_item)"
    by (simp add: has_url_def initial_state_def init_db_def)
  have f: "fetch ex_offline (clock (initial_state init_db)) (cand_url ex_item)
      = Inl (Exception ''ConnectError()'')
    \<or> (\<exists>status furl html. fetch ex_offline (clock (initial_state init_db)) (cand_url ex_item)
          = Inr (status, furl, html)
        \<and> extract_text ex_offline html = Inl (Exception ''ConnectError()''))"
    by (simp add: fetch_def ex_offline_def)
  from candidate_exception_recorded [OF ex_item_on_topic h f, of ex_source "[]"] show ?thesis
    by (simp add: initial_state_def)
qed

text \<open>
  C9. Where \<open>hexdigest\<close> returns its 64 digits, the property that every row of \<open>articles\<close>
  has \<open>extracted_chars\<close> of at least \<open>MIN_CHARS\<close>, which is 900, and a \<open>content_hash\<close> that
  is not empty holds of the empty store, is kept by every step of the candidate loop, the
  only place that writes the table, and so holds of the store after any number of runs
  of the pipeline from the empty store, complete or not. A candidate whose extracted text
  is shorter than \<open>MIN_CHARS\<close> leaves the store as it was.
\<close>

theorem stored_rows_meet_threshold:
  "meets_threshold init_db
   \<and> ((\<forall>b. length (sha256_hexdigest w b) = 64) \<and> meets_threshold (store s)
        \<longrightarrow> meets_threshold (store (process_candidate w src it s)))
   \<and> ((\<forall>wl\<in>set rs. \<forall>b. length (sha256_hexdigest (fst wl) b) = 64)
        \<longrightarrow> meets_threshold (pipeline_runs rs init_db)
          \<and> (\<forall>ur\<in>set (articles (pipeline_runs rs init_db)).
                \<exists>n h. row_extracted_chars (snd ur) = Some n \<and> 900 \<le> n
                  \<and> row_content_hash (snd ur) = Some h \<and> h \<noteq> []))
   \<and> (fetch_and_extract w (clock s) (cand_url it) = Inr (status, furl, body, dmn)
        \<and> int (length body) < MIN_CHARS
        \<longrightarrow> store (process_candidate w src it s) = store s)
   \<and> MIN_CHARS = 900"
proof -
  have 0: "meets_threshold init_db" by (simp add: meets_threshold_def init_db_def)
  have 1: "\<forall>ur\<in>set (articles (pipeline_runs rs init_db)).
      \<exists>n h. row_extracted_chars (snd ur) = Some n \<and> 900 \<le> n
        \<and> row_content_hash (snd ur) = Some h \<and> h \<noteq> []"
    if "meets_threshold (pipeline_runs rs init_db)"
    using that row_meets_threshold_explicit
    by (auto simp: meets_threshold_def list_all_iff)
  have 2: "MIN_CHARS = 900" by (simp add: MIN_CHARS_def)
  from 0 1 2 pipeline_runs_meets_threshold [of rs init_db]
    process_candidate_meets_threshold [of w s src it]
    process_candidate_short_text [of w s it status furl body dmn src]
  show ?thesis by blast
qed

theorem stored_rows_meet_threshold_witness:
  "(\<forall>b. length (sha256_hexdigest ex_world b) = 64)
   \<and> meets_threshold (pipeline_runs [(ex_world, 30)] init_db)
   \<and> articles (store (process_candidate ex_world ex_source ex_item (initial_state init_db)))
       = [(''https://example.com/ufc-300-topuria'',
           to_row \<lparr>url = ''https://example.com/ufc-300-topuria'',
             final_url = ''https://example.com/ufc-300-topuria'',
             title = ''UFC 300: Topuria retains title'', source = ''marca_portada'',
             published = [], domain = ''example.com'',
             fetched_at = ''2024-05-01T10:00:00+00:00'', extracted_chars = 950,
             content_hash = ''904cf860ec4f9657c95dc865a65777ba86777bf686748ce97ae250dd45da5e95'',
             text' = ex_text\<rparr>)]
   \<and> meets_threshold (store (process_candidate ex_world ex_source ex_item
        (initial_state init_db)))
   \<and> store (process_candidate ex_world ex_source
        \<lparr>cand_title = ''Noticias de UFC'', cand_url = ''https://www.dazn.com/es-ES/news'',
         cand_published = []\<rparr> (initial_state init_db)) = init_db"
proof -
  note t = stored_rows_meet_threshold
  have g: "\<forall>b. length (sha256_hexdigest ex_world b) = 64"
    by (simp add: ex_world_def)
  then have "\<forall>wl\<in>set [(ex_world, 30::int)]. \<forall>b. length (sha256_hexdigest (fst wl) b) = 64"
    by simp
  with t [where rs = "[(ex_world, 30)]"]
  have a: "meets_threshold (pipeline_runs [(ex_world, 30)] init_db)"
    by blast
  from t [where w = ex_world and s = "initial_state init_db" and src = ex_source
      and it = ex_item] g
  have b: "meets_threshold (store (process_candidate ex_world ex_source ex_item
        (initial_state init_db)))"
    by (simp add: initial_state_def)
  have "int (length ([]::string)) < MIN_CHARS" by (simp add: MIN_CHARS_def)
  with ex_fetch_listing_page [of "clock (initial_state init_db)"]
    t [where w = ex_world and s = "initial_state init_db" and src = ex_source
      and it = "\<lparr>cand_title = ''Noticias de UFC'',
        cand_url = ''https://www.dazn.com/es-ES/news'', cand_published = []\<rparr>"
      and status = 200 and furl = "''https://www.dazn.com/es-ES/news''" and body = "[]"
      and dmn = "''www.dazn.com''"]
  have c: "store (process_candidate ex_world ex_source
        \<lparr>cand_title = ''Noticias de UFC'', cand_url = ''https://www.dazn.com/es-ES/news'',
         cand_published = []\<rparr> (initial_state init_db)) = init_db"
    by (simp add: initial_state_def)
  from g a b c ex_item_stored show ?thesis by simp
qed

end
